theory Spec2Isabelle
  imports Complex_Main "HOL-Library.Word"
begin

section \<open>Chat messages and the message store\<close>

text \<open>
  The C++ type \<open>double\<close> is modelled by \<^typ>\<open>real\<close>: a double is the real number it
  stands for, and infinities and NaN are outside the model. The arithmetic of doubles is
  that of the reals, except in the second model of the render pass, where the rounding of
  the operations matters and the operations are parameters. The C++ type \<open>int\<close> is
  modelled by \<^typ>\<open>int\<close>; no claim below depends on 32-bit wrap-around.
\<close>

record ChatMessage =
  m_time :: real
  m_user :: string
  m_text :: string

text \<open>
  \<open>std::lower_bound(first, last, val)\<close> with \<open>operator < (ChatMessage const &, double)\<close>,
  as the usual halving search over the index range \<open>[first, first + len)\<close>: the result
  is an index into the vector.
\<close>

function lower_bound :: "ChatMessage list \<Rightarrow> nat \<Rightarrow> nat \<Rightarrow> real \<Rightarrow> nat" where
  "lower_bound xs first len val =
     (if len = 0 then first
      else let half = len div 2; middle = first + half
           in if m_time (xs ! middle) < val
              then lower_bound xs (middle + 1) (len - half - 1) val
              else lower_bound xs first half val)"
  by pat_completeness auto
termination
  by (relation "measure (\<lambda>(xs, first, len, val). len)") auto

text \<open>
  \<open>std::upper_bound(first, last, val)\<close> with \<open>operator < (double, ChatMessage const &)\<close>.
\<close>

function upper_bound :: "ChatMessage list \<Rightarrow> nat \<Rightarrow> nat \<Rightarrow> real \<Rightarrow> nat" where
  "upper_bound xs first len val =
     (if len = 0 then first
      else let half = len div 2; middle = first + half
           in if val < m_time (xs ! middle)
              then upper_bound xs first half val
              else upper_bound xs (middle + 1) (len - half - 1) val)"
  by pat_completeness auto
termination
  by (relation "measure (\<lambda>(xs, first, len, val). len)") auto

declare lower_bound.simps [simp del]
declare upper_bound.simps [simp del]

section \<open>Graphic objects\<close>

text \<open>
  The Cairo surface, the Cairo context and the Pango layout are external objects. Each is
  modelled by the part of its state that the renderer sets or reads. The pixel contents
  of a surface are represented by the list of drawing operations painted on it since it
  was created or last cleared. The context always draws on the surface held in
  \<open>m_surface\<close>: the two are created together and released together.
\<close>

type_synonym rgb = "real \<times> real \<times> real"
type_synonym rgba = "real \<times> real \<times> real \<times> real"

text \<open>The arguments given to \<open>g_markup_printf_escaped\<close> stand for the markup string.\<close>

record markup =
  mk_red :: int
  mk_green :: int
  mk_blue :: int
  mk_alpha :: int
  mk_user :: string
  mk_text :: string

datatype draw_op =
  Fill_rounded_rect int int real real real rgba
    \<comment> \<open>origin of the user space (x, y), box width, box height, corner radius, source colour\<close>
| Show_layout int int "markup option" rgba
    \<comment> \<open>device position (x, y) of the layout, its markup, source colour\<close>

record cairo_surface =
  surf_width :: int
  surf_height :: int
  surf_ops :: "draw_op list"

record cairo_context =
  ctx_tx :: int
  ctx_ty :: int
  ctx_source :: rgba
  ctx_antialias :: int

datatype pango_alignment = ALIGN_LEFT | ALIGN_CENTER | ALIGN_RIGHT
datatype pango_wrap = WRAP_WORD | WRAP_CHAR | WRAP_WORD_CHAR

record pango_layout =
  lay_width :: int
  lay_height :: int
  lay_font :: string
  lay_alignment :: pango_alignment
  lay_wrap :: pango_wrap
  lay_markup :: "markup option"

text \<open>
  The context's transformation matrix is only ever the identity followed by translations
  by whole pixels, so it is the pair \<open>(ctx_tx, ctx_ty)\<close>.
\<close>

definition set_identity_matrix :: "cairo_context \<Rightarrow> cairo_context" where
  "set_identity_matrix cx = cx\<lparr> ctx_tx := 0, ctx_ty := 0 \<rparr>"

definition translate :: "int \<Rightarrow> int \<Rightarrow> cairo_context \<Rightarrow> cairo_context" where
  "translate dx dy cx = cx\<lparr> ctx_tx := ctx_tx cx + dx, ctx_ty := ctx_ty cx + dy \<rparr>"

text \<open>
  \<open>Cairo::Context::set_source_rgba\<close>: Cairo restricts each of the four components to the
  range from 0 to 1.
\<close>

definition clamp01 :: "real \<Rightarrow> real" where
  "clamp01 x = (if x < 0 then 0 else if 1 < x then 1 else x)"

definition set_source_rgba :: "rgba \<Rightarrow> cairo_context \<Rightarrow> cairo_context" where
  "set_source_rgba c cx =
     (case c of (red, green, blue, alpha) \<Rightarrow>
        cx\<lparr> ctx_source := (clamp01 red, clamp01 green, clamp01 blue, clamp01 alpha) \<rparr>)"

text \<open>
  \<open>Pango::Layout::get_size\<close>, the text backend's measurement of a layout (width and
  height in Pango units), is a parameter of the model.
\<close>

type_synonym text_backend = "pango_layout \<Rightarrow> int \<times> int"

text \<open>Pango's header: \<open>PANGO_SCALE\<close> is 1024, \<open>PANGO_PIXELS(d)\<close> is \<open>(d + 512) >> 10\<close>.\<close>

definition PANGO_SCALE :: int where
  "PANGO_SCALE = 1024"

definition PANGO_PIXELS :: "int \<Rightarrow> int" where
  "PANGO_PIXELS d = (d + 512) div 1024"

text \<open>The conversion \<open>(int) x\<close> of a double truncates towards zero.\<close>

definition int_of_double :: "real \<Rightarrow> int" where
  "int_of_double x = (if 0 \<le> x then \<lfloor>x\<rfloor> else \<lceil>x\<rceil>)"

text \<open>The C function \<open>round\<close>: to the nearest integer, halfway cases away from zero.\<close>

definition c_round :: "real \<Rightarrow> real" where
  "c_round x = (if 0 \<le> x then of_int \<lfloor>x + 1 / 2\<rfloor> else of_int \<lceil>x - 1 / 2\<rceil>)"

section \<open>The renderer\<close>

record ChatMessageRenderer =
  m_messages :: "ChatMessage list"
  m_surface :: "cairo_surface option"
  m_context :: "cairo_context option"
  m_layout :: "pango_layout option"
  m_width :: int
  m_height :: int
  m_margin :: int
  m_color_bg :: rgba
  m_color_user :: rgb
  m_color_text :: rgb
  m_fade_in_time :: real
  m_hold_time :: real
  m_fade_out_time :: real

text \<open>The constructor, with its member initialisers.\<close>

definition new_renderer :: "ChatMessage list \<Rightarrow> ChatMessageRenderer" where
  "new_renderer messages =
     \<lparr> m_messages = messages, m_surface = None, m_context = None, m_layout = None,
       m_width = 640, m_height = 360, m_margin = 10,
       m_color_bg = (0.5, 0.5, 0.5, 0.5), m_color_user = (0.628, 0, 0), m_color_text = (0, 0, 0),
       m_fade_in_time = 1, m_hold_time = 15, m_fade_out_time = 1 \<rparr>"

text \<open>
  Two failures are values of the model: the use of a released (null) \<open>RefPtr\<close>, and a
  \<open>memset\<close> with a negative count, which converted to \<open>size_t\<close> exceeds any buffer.
\<close>

datatype render_error = NullPointer | MemsetOverrun

definition drawRelease :: "ChatMessageRenderer \<Rightarrow> ChatMessageRenderer" where
  "drawRelease s = s\<lparr> m_layout := None, m_context := None, m_surface := None \<rparr>"

definition setMessages :: "ChatMessage list \<Rightarrow> ChatMessageRenderer \<Rightarrow> ChatMessageRenderer" where
  "setMessages messages s = s\<lparr> m_messages := messages \<rparr>"

definition setWidth :: "int \<Rightarrow> ChatMessageRenderer \<Rightarrow> ChatMessageRenderer" where
  "setWidth width s = (if m_width s \<noteq> width then drawRelease (s\<lparr> m_width := width \<rparr>) else s)"

definition setHeight :: "int \<Rightarrow> ChatMessageRenderer \<Rightarrow> ChatMessageRenderer" where
  "setHeight height s = (if m_height s \<noteq> height then drawRelease (s\<lparr> m_height := height \<rparr>) else s)"

definition setMargin :: "int \<Rightarrow> ChatMessageRenderer \<Rightarrow> ChatMessageRenderer" where
  "setMargin margin s = (if m_margin s \<noteq> margin then drawRelease (s\<lparr> m_margin := margin \<rparr>) else s)"

definition setColorBackground :: "rgba \<Rightarrow> ChatMessageRenderer \<Rightarrow> ChatMessageRenderer" where
  "setColorBackground c s = s\<lparr> m_color_bg := c \<rparr>"

definition setColorUser :: "rgb \<Rightarrow> ChatMessageRenderer \<Rightarrow> ChatMessageRenderer" where
  "setColorUser c s = s\<lparr> m_color_user := c \<rparr>"

definition setColorText :: "rgb \<Rightarrow> ChatMessageRenderer \<Rightarrow> ChatMessageRenderer" where
  "setColorText c s = s\<lparr> m_color_text := c \<rparr>"

definition setFadeInTime :: "real \<Rightarrow> ChatMessageRenderer \<Rightarrow> ChatMessageRenderer" where
  "setFadeInTime t s = s\<lparr> m_fade_in_time := t \<rparr>"

definition setHoldTime :: "real \<Rightarrow> ChatMessageRenderer \<Rightarrow> ChatMessageRenderer" where
  "setHoldTime t s = s\<lparr> m_hold_time := t \<rparr>"

definition setFadeOutTime :: "real \<Rightarrow> ChatMessageRenderer \<Rightarrow> ChatMessageRenderer" where
  "setFadeOutTime t s = s\<lparr> m_fade_out_time := t \<rparr>"

text \<open>
  \<open>drawInit\<close>: without a surface, the three objects are created; with one, the surface is
  cleared through the context (\<open>save\<close>, \<open>OPERATOR_CLEAR\<close>, \<open>paint\<close>, \<open>restore\<close> leave the
  context as it was).
\<close>

definition drawInit :: "ChatMessageRenderer \<Rightarrow> render_error + ChatMessageRenderer" where
  "drawInit s =
     (case m_surface s of
        None \<Rightarrow>
          Inr (s\<lparr> m_surface := Some \<lparr> surf_width = m_width s, surf_height = m_height s, surf_ops = [] \<rparr>,
                  m_context := Some \<lparr> ctx_tx = 0, ctx_ty = 0, ctx_source = (0, 0, 0, 1), ctx_antialias = 5 \<rparr>,
                  m_layout := Some \<lparr> lay_width = (m_width s - 2 * m_margin s) * PANGO_SCALE,
                                      lay_height = (m_height s - 2 * m_margin s) * PANGO_SCALE,
                                      lay_font = ''Sans 12'',
                                      lay_alignment = ALIGN_LEFT,
                                      lay_wrap = WRAP_WORD_CHAR,
                                      lay_markup = None \<rparr> \<rparr>)
      | Some sf \<Rightarrow>
          (case m_context s of
             None \<Rightarrow> Inl NullPointer
           | Some cx \<Rightarrow> Inr (s\<lparr> m_surface := Some (sf\<lparr> surf_ops := [] \<rparr>) \<rparr>)))"

text \<open>A fill or a show through the context paints on the surface.\<close>

definition paint :: "draw_op \<Rightarrow> ChatMessageRenderer \<Rightarrow> render_error + ChatMessageRenderer" where
  "paint op s =
     (case m_surface s of
        None \<Rightarrow> Inl NullPointer
      | Some sf \<Rightarrow> Inr (s\<lparr> m_surface := Some (sf\<lparr> surf_ops := surf_ops sf @ [op] \<rparr>) \<rparr>))"

definition drawBackground :: "int \<Rightarrow> int \<Rightarrow> real \<Rightarrow> ChatMessageRenderer \<Rightarrow> render_error + ChatMessageRenderer" where
  "drawBackground text_width text_height alpha s =
     (let r = 1.5 * real_of_int (m_margin s);
          w = real_of_int (text_width + 2 * m_margin s);
          h = real_of_int (text_height + 2 * m_margin s)
      in case m_context s of
           None \<Rightarrow> Inl NullPointer
         | Some cx \<Rightarrow>
             (case m_color_bg s of (cr, cg, cb, ca) \<Rightarrow>
                let cx1 = set_source_rgba (cr, cg, cb, ca * alpha) cx
                in paint (Fill_rounded_rect (ctx_tx cx1) (ctx_ty cx1) w h r (ctx_source cx1))
                     (s\<lparr> m_context := Some cx1 \<rparr>)))"

text \<open>
  The first part of \<open>drawMessage\<close>: the opacity \<open>alpha\<close> and the value left in \<open>progress\<close>.
  (With a fade time of zero the C++ division gives an infinity or NaN; the claims below
  are about positive fade times.)
\<close>

definition alpha_progress :: "ChatMessageRenderer \<Rightarrow> ChatMessage \<Rightarrow> real \<Rightarrow> real \<times> real" where
  "alpha_progress s msg time =
     (let t_hold = m_time msg + m_fade_in_time s;
          t_fout = m_time msg + m_fade_in_time s + m_hold_time s
      in if time < t_hold
         then ((time - m_time msg) / m_fade_in_time s, (time - m_time msg) / m_fade_in_time s)
         else if time > t_fout
         then (1 - (time - t_fout) / m_fade_out_time s, 1)
         else (1, 1))"

definition markup_of :: "ChatMessageRenderer \<Rightarrow> ChatMessage \<Rightarrow> real \<Rightarrow> markup" where
  "markup_of s msg alpha =
     (case m_color_user s of (ur, ug, ub) \<Rightarrow>
        \<lparr> mk_red = int_of_double (ur * 255),
          mk_green = int_of_double (ug * 255),
          mk_blue = int_of_double (ub * 255),
          mk_alpha = int_of_double (alpha * 255),
          mk_user = m_user msg,
          mk_text = m_text msg \<rparr>)"

text \<open>
  \<open>drawMessage\<close> returns the values it leaves in \<open>height\<close> and \<open>progress\<close>, and the
  renderer.
\<close>

definition drawMessage ::
  "text_backend \<Rightarrow> ChatMessage \<Rightarrow> real \<Rightarrow> ChatMessageRenderer \<Rightarrow> render_error + (int \<times> real \<times> ChatMessageRenderer)" where
  "drawMessage get_size msg time s =
     (case alpha_progress s msg time of (alpha, progress) \<Rightarrow>
        if alpha \<le> 1 / 255 then Inr (0, progress, s)
        else
          (case m_layout s of
             None \<Rightarrow> Inl NullPointer
           | Some ly \<Rightarrow>
               let ly1 = ly\<lparr> lay_markup := Some (markup_of s msg alpha) \<rparr>;
                   text_width = PANGO_PIXELS (fst (get_size ly1));
                   text_height = PANGO_PIXELS (snd (get_size ly1))
               in (case drawBackground text_width text_height alpha (s\<lparr> m_layout := Some ly1 \<rparr>) of
                     Inl e \<Rightarrow> Inl e
                   | Inr s1 \<Rightarrow>
                       (case m_context s1 of
                          None \<Rightarrow> Inl NullPointer
                        | Some cx \<Rightarrow>
                            (case m_color_text s1 of (tr, tg, tb) \<Rightarrow>
                               let cx1 = set_source_rgba (tr, tg, tb, alpha) cx
                               in (case paint (Show_layout (ctx_tx cx1 + m_margin s1) (ctx_ty cx1 + m_margin s1)
                                                 (lay_markup ly1) (ctx_source cx1))
                                          (s1\<lparr> m_context := Some cx1 \<rparr>) of
                                     Inl e \<Rightarrow> Inl e
                                   | Inr s2 \<Rightarrow> Inr (text_height + 3 * m_margin s2, progress, s2)))))))"

text \<open>
  The first lines of \<open>render\<close>: the span \<open>{first, last}\<close> of active messages.
\<close>

definition active_messages :: "ChatMessageRenderer \<Rightarrow> real \<Rightarrow> ChatMessage list" where
  "active_messages s time =
     (let time_lo = time - (m_fade_in_time s + m_hold_time s + m_fade_out_time s);
          time_hi = time;
          first = lower_bound (m_messages s) 0 (length (m_messages s)) time_lo;
          last = upper_bound (m_messages s) first (length (m_messages s) - first) time_hi
      in take (last - first) (drop first (m_messages s)))"

text \<open>The loop of \<open>render\<close> over the active messages, with the accumulator \<open>th\<close>.\<close>

fun render_loop ::
  "text_backend \<Rightarrow> ChatMessage list \<Rightarrow> real \<Rightarrow> real \<Rightarrow> ChatMessageRenderer \<Rightarrow> render_error + (real \<times> ChatMessageRenderer)" where
  "render_loop get_size [] time th s = Inr (th, s)"
| "render_loop get_size (msg # msgs) time th s =
     (case drawMessage get_size msg time s of
        Inl e \<Rightarrow> Inl e
      | Inr (h, p, s1) \<Rightarrow>
          (case m_context s1 of
             None \<Rightarrow> Inl NullPointer
           | Some cx \<Rightarrow>
               render_loop get_size msgs time (th + p * real_of_int h)
                 (s1\<lparr> m_context := Some (translate 0 h cx) \<rparr>)))"

definition render :: "text_backend \<Rightarrow> real \<Rightarrow> ChatMessageRenderer \<Rightarrow> render_error + (int \<times> ChatMessageRenderer)" where
  "render get_size time s =
     (let active = active_messages s time
      in if active = [] then Inr (0, s)
         else
           (case drawInit s of
              Inl e \<Rightarrow> Inl e
            | Inr s1 \<Rightarrow>
                (case m_context s1 of
                   None \<Rightarrow> Inl NullPointer
                 | Some cx \<Rightarrow>
                     (case render_loop get_size active time 0
                             (s1\<lparr> m_context := Some (translate (m_margin s1) 0 (set_identity_matrix cx)) \<rparr>) of
                        Inl e \<Rightarrow> Inl e
                      | Inr (th, s2) \<Rightarrow>
                          (case m_surface s2 of
                             None \<Rightarrow> Inl NullPointer
                           | Some sf \<Rightarrow> Inr (int_of_double (c_round th), s2))))))"

section \<open>The render pass with the arithmetic of doubles as a parameter\<close>

text \<open>
  Above, sums, differences, products and quotients of doubles are those of the reals. The
  integer that \<open>render\<close> returns depends on how doubles round, so the render pass is given
  a second time with the four operations as parameters. A double is the real number it
  stands for; IEEE 754 arithmetic is the instance in which each operation gives the exact
  result rounded to the nearest double. Comparisons of doubles, the conversion of an \<open>int\<close>
  to a double, \<open>round\<close> and the conversion of a double to \<open>int\<close> are exact and are
  as above. With the operations of the reals this model is the one above.
\<close>

record double_ops =
  d_add :: "real \<Rightarrow> real \<Rightarrow> real"
  d_sub :: "real \<Rightarrow> real \<Rightarrow> real"
  d_mul :: "real \<Rightarrow> real \<Rightarrow> real"
  d_div :: "real \<Rightarrow> real \<Rightarrow> real"

definition exact_ops :: double_ops where
  "exact_ops = \<lparr> d_add = (+), d_sub = (-), d_mul = (*), d_div = (/) \<rparr>"

definition drawBackground_fp ::
  "double_ops \<Rightarrow> int \<Rightarrow> int \<Rightarrow> real \<Rightarrow> ChatMessageRenderer \<Rightarrow> render_error + ChatMessageRenderer" where
  "drawBackground_fp fp text_width text_height alpha s =
     (let r = d_mul fp 1.5 (real_of_int (m_margin s));
          w = real_of_int (text_width + 2 * m_margin s);
          h = real_of_int (text_height + 2 * m_margin s)
      in case m_context s of
           None \<Rightarrow> Inl NullPointer
         | Some cx \<Rightarrow>
             (case m_color_bg s of (cr, cg, cb, ca) \<Rightarrow>
                let cx1 = set_source_rgba (cr, cg, cb, d_mul fp ca alpha) cx
                in paint (Fill_rounded_rect (ctx_tx cx1) (ctx_ty cx1) w h r (ctx_source cx1))
                     (s\<lparr> m_context := Some cx1 \<rparr>)))"

definition alpha_progress_fp :: "double_ops \<Rightarrow> ChatMessageRenderer \<Rightarrow> ChatMessage \<Rightarrow> real \<Rightarrow> real \<times> real" where
  "alpha_progress_fp fp s msg time =
     (let t_hold = d_add fp (m_time msg) (m_fade_in_time s);
          t_fout = d_add fp (d_add fp (m_time msg) (m_fade_in_time s)) (m_hold_time s)
      in if time < t_hold
         then (d_div fp (d_sub fp time (m_time msg)) (m_fade_in_time s),
               d_div fp (d_sub fp time (m_time msg)) (m_fade_in_time s))
         else if time > t_fout
         then (d_sub fp 1 (d_div fp (d_sub fp time t_fout) (m_fade_out_time s)), 1)
         else (1, 1))"

definition markup_of_fp :: "double_ops \<Rightarrow> ChatMessageRenderer \<Rightarrow> ChatMessage \<Rightarrow> real \<Rightarrow> markup" where
  "markup_of_fp fp s msg alpha =
     (case m_color_user s of (ur, ug, ub) \<Rightarrow>
        \<lparr> mk_red = int_of_double (d_mul fp ur 255),
          mk_green = int_of_double (d_mul fp ug 255),
          mk_blue = int_of_double (d_mul fp ub 255),
          mk_alpha = int_of_double (d_mul fp alpha 255),
          mk_user = m_user msg,
          mk_text = m_text msg \<rparr>)"

definition drawMessage_fp ::
  "double_ops \<Rightarrow> text_backend \<Rightarrow> ChatMessage \<Rightarrow> real \<Rightarrow> ChatMessageRenderer
     \<Rightarrow> render_error + (int \<times> real \<times> ChatMessageRenderer)" where
  "drawMessage_fp fp get_size msg time s =
     (case alpha_progress_fp fp s msg time of (alpha, progress) \<Rightarrow>
        if alpha \<le> d_div fp 1 255 then Inr (0, progress, s)
        else
          (case m_layout s of
             None \<Rightarrow> Inl NullPointer
           | Some ly \<Rightarrow>
               let ly1 = ly\<lparr> lay_markup := Some (markup_of_fp fp s msg alpha) \<rparr>;
                   text_width = PANGO_PIXELS (fst (get_size ly1));
                   text_height = PANGO_PIXELS (snd (get_size ly1))
               in (case drawBackground_fp fp text_width text_height alpha (s\<lparr> m_layout := Some ly1 \<rparr>) of
                     Inl e \<Rightarrow> Inl e
                   | Inr s1 \<Rightarrow>
                       (case m_context s1 of
                          None \<Rightarrow> Inl NullPointer
                        | Some cx \<Rightarrow>
                            (case m_color_text s1 of (tr, tg, tb) \<Rightarrow>
                               let cx1 = set_source_rgba (tr, tg, tb, alpha) cx
                               in (case paint (Show_layout (ctx_tx cx1 + m_margin s1) (ctx_ty cx1 + m_margin s1)
                                                 (lay_markup ly1) (ctx_source cx1))
                                          (s1\<lparr> m_context := Some cx1 \<rparr>) of
                                     Inl e \<Rightarrow> Inl e
                                   | Inr s2 \<Rightarrow> Inr (text_height + 3 * m_margin s2, progress, s2)))))))"

definition active_messages_fp :: "double_ops \<Rightarrow> ChatMessageRenderer \<Rightarrow> real \<Rightarrow> ChatMessage list" where
  "active_messages_fp fp s time =
     (let time_lo = d_sub fp time (d_add fp (d_add fp (m_fade_in_time s) (m_hold_time s)) (m_fade_out_time s));
          time_hi = time;
          first = lower_bound (m_messages s) 0 (length (m_messages s)) time_lo;
          last = upper_bound (m_messages s) first (length (m_messages s) - first) time_hi
      in take (last - first) (drop first (m_messages s)))"

fun render_loop_fp ::
  "double_ops \<Rightarrow> text_backend \<Rightarrow> ChatMessage list \<Rightarrow> real \<Rightarrow> real \<Rightarrow> ChatMessageRenderer
     \<Rightarrow> render_error + (real \<times> ChatMessageRenderer)" where
  "render_loop_fp fp get_size [] time th s = Inr (th, s)"
| "render_loop_fp fp get_size (msg # msgs) time th s =
     (case drawMessage_fp fp get_size msg time s of
        Inl e \<Rightarrow> Inl e
      | Inr (h, p, s1) \<Rightarrow>
          (case m_context s1 of
             None \<Rightarrow> Inl NullPointer
           | Some cx \<Rightarrow>
               render_loop_fp fp get_size msgs time (d_add fp th (d_mul fp p (real_of_int h)))
                 (s1\<lparr> m_context := Some (translate 0 h cx) \<rparr>)))"

definition render_fp ::
  "double_ops \<Rightarrow> text_backend \<Rightarrow> real \<Rightarrow> ChatMessageRenderer \<Rightarrow> render_error + (int \<times> ChatMessageRenderer)" where
  "render_fp fp get_size time s =
     (let active = active_messages_fp fp s time
      in if active = [] then Inr (0, s)
         else
           (case drawInit s of
              Inl e \<Rightarrow> Inl e
            | Inr s1 \<Rightarrow>
                (case m_context s1 of
                   None \<Rightarrow> Inl NullPointer
                 | Some cx \<Rightarrow>
                     (case render_loop_fp fp get_size active time 0
                             (s1\<lparr> m_context := Some (translate (m_margin s1) 0 (set_identity_matrix cx)) \<rparr>) of
                        Inl e \<Rightarrow> Inl e
                      | Inr (th, s2) \<Rightarrow>
                          (case m_surface s2 of
                             None \<Rightarrow> Inl NullPointer
                           | Some sf \<Rightarrow> Inr (int_of_double (c_round th), s2))))))"

section \<open>Loading the chat log\<close>

text \<open>
  The document that pugixml builds is a tree of nodes with a name, attributes and children;
  \<open>doc.root()\<close> is given by the list of its children. \<open>xml_document::load_file\<close> is a
  parameter of the model: for a file name it gives the parse status and the tree left in
  the document. pugixml does not throw on a missing or malformed file; it reports the
  status in its result and keeps in the document what it parsed before the error.
\<close>

datatype xml_node = Xml_node (node_name: string) (node_attributes: "(string \<times> string) list") (node_children: "xml_node list")

datatype xml_parse_status =
  status_ok | status_file_not_found | status_io_error | status_bad_attribute
| status_end_element_mismatch | status_no_document_element

type_synonym xml_loader = "string \<Rightarrow> xml_parse_status \<times> xml_node list"

text \<open>\<open>xml_node::child(name)\<close>: the first child of that name, or the null node.\<close>

definition child :: "xml_node list \<Rightarrow> string \<Rightarrow> xml_node option" where
  "child nodes name = find (\<lambda>n. node_name n = name) nodes"

text \<open>\<open>xml_node::children()\<close>: the null node has none.\<close>

definition children :: "xml_node option \<Rightarrow> xml_node list" where
  "children n = (case n of None \<Rightarrow> [] | Some node \<Rightarrow> node_children node)"

text \<open>\<open>xml_node::attribute(name)\<close>: the first attribute of that name, or the null attribute.\<close>

definition attribute :: "xml_node \<Rightarrow> string \<Rightarrow> string option" where
  "attribute n name = map_of (node_attributes n) name"

text \<open>
  \<open>xml_attribute::as_double()\<close> is 0 for the null attribute and the C library's conversion
  of the value (a parameter) otherwise; \<open>xml_attribute::value()\<close> is the empty string for
  the null attribute.
\<close>

definition as_double :: "(string \<Rightarrow> real) \<Rightarrow> string option \<Rightarrow> real" where
  "as_double strtod a = (case a of None \<Rightarrow> 0 | Some v \<Rightarrow> strtod v)"

definition attr_value :: "string option \<Rightarrow> string" where
  "attr_value a = (case a of None \<Rightarrow> [] | Some v \<Rightarrow> v)"

text \<open>
  \<open>ChatMessage::loadFromFile\<close>. The result of \<open>load_file\<close> is not looked at. \<open>std::sort\<close>
  with \<open>operator <\<close> on \<open>m_time\<close> is modelled by a sort on that key; the order it leaves
  among messages of equal time is not specified by C++ and no claim depends on it.
\<close>

definition loadFromFile :: "(string \<Rightarrow> real) \<Rightarrow> xml_loader \<Rightarrow> string \<Rightarrow> ChatMessage list" where
  "loadFromFile strtod load_file filename =
     (let doc = snd (load_file filename);
          rv = map (\<lambda>element.
                      \<lparr> m_time = as_double strtod (attribute element ''in''),
                        m_user = attr_value (attribute element ''name''),
                        m_text = attr_value (attribute element ''message'') \<rparr>)
                   (children (child doc ''popcorn''))
      in sort_key m_time rv)"

text \<open>
  \<open>doReloadMessages\<close>: the handler of \<open>std::exception\<close>, which stores the empty vector, is
  never entered since nothing in \<open>loadFromFile\<close> as modelled throws.
\<close>

definition doReloadMessages ::
  "(string \<Rightarrow> real) \<Rightarrow> xml_loader \<Rightarrow> string \<Rightarrow> ChatMessageRenderer \<Rightarrow> ChatMessageRenderer" where
  "doReloadMessages strtod load_file data_file s = setMessages (loadFromFile strtod load_file data_file) s"

section \<open>Copying the rendered surface to the output image\<close>

record OfxRectI =
  x1 :: int
  y1 :: int
  x2 :: int
  y2 :: int

text \<open>\<open>clipRectI\<close> changes its first argument; the model returns it.\<close>

definition clipRectI :: "OfxRectI \<Rightarrow> OfxRectI \<Rightarrow> OfxRectI" where
  "clipRectI r1 r2 =
     \<lparr> x1 = max (x1 r1) (x1 r2), y1 = max (y1 r1) (y1 r2),
       x2 = min (x2 r1) (x2 r2), y2 = min (y2 r1) (y2 r2) \<rparr>"

text \<open>
  Memory is not modelled by its contents but by the accesses made: \<open>effectRender\<close> yields
  the list, in program order, of the bytes it writes in the output image. A pointer is
  its byte offset from the start of its buffer (the host's image data for \<open>out_data\<close>,
  the surface's data for \<open>in_data\<close>).
\<close>

datatype mem_write =
  Set_zero int
    \<comment> \<open>the output byte at this offset is set to 0\<close>
| Copy_byte int int
    \<comment> \<open>the output byte at the first offset receives the surface byte at the second\<close>

text \<open>
  \<open>memset(&out_data[ofs], 0x00, n)\<close> for the \<open>int\<close> value \<open>n\<close> that the code passes as
  the count.
\<close>

definition memset_zero :: "int \<Rightarrow> int \<Rightarrow> render_error + mem_write list" where
  "memset_zero ofs n =
     (if n < 0 then Inl MemsetOverrun else Inr (map (\<lambda>i. Set_zero (ofs + i)) [0..n - 1]))"

text \<open>The loop that clears the render target, from row \<open>y\<close> on.\<close>

function clear_target :: "OfxRectI \<Rightarrow> int \<Rightarrow> int \<Rightarrow> render_error + mem_write list" where
  "clear_target rRender out_stride y =
     (if y < y2 rRender
      then (case memset_zero ((y * out_stride) + 4 * x1 rRender) ((x2 rRender - x1 rRender) * 4) of
              Inl e \<Rightarrow> Inl e
            | Inr row \<Rightarrow>
                (case clear_target rRender out_stride (y + 1) of
                   Inl e \<Rightarrow> Inl e
                 | Inr rest \<Rightarrow> Inr (row @ rest)))
      else Inr [])"
  by pat_completeness auto
termination
  by (relation "measure (\<lambda>(rRender, out_stride, y). nat (y2 rRender - y))") auto

text \<open>The inner loop of the copy, from column \<open>x\<close> on.\<close>

function copy_row :: "OfxRectI \<Rightarrow> int \<Rightarrow> int \<Rightarrow> int \<Rightarrow> int \<Rightarrow> int \<Rightarrow> mem_write list" where
  "copy_row rRender in_data out_data x in_ofs out_ofs =
     (if x < x2 rRender
      then [Copy_byte (out_data + (out_ofs + 0)) (in_data + (in_ofs + 2)),
            Copy_byte (out_data + (out_ofs + 1)) (in_data + (in_ofs + 1)),
            Copy_byte (out_data + (out_ofs + 2)) (in_data + (in_ofs + 0)),
            Copy_byte (out_data + (out_ofs + 3)) (in_data + (in_ofs + 3))]
           @ copy_row rRender in_data out_data (x + 1) (in_ofs + 4) (out_ofs + 4)
      else [])"
  by pat_completeness auto
termination
  by (relation "measure (\<lambda>(rRender, in_data, out_data, x, in_ofs, out_ofs). nat (x2 rRender - x))") auto

text \<open>The outer loop of the copy, from row \<open>y\<close> on.\<close>

function copy_rows :: "OfxRectI \<Rightarrow> int \<Rightarrow> int \<Rightarrow> int \<Rightarrow> int \<Rightarrow> int \<Rightarrow> mem_write list" where
  "copy_rows rRender in_stride out_stride y in_data out_data =
     (if y < y2 rRender
      then copy_row rRender in_data out_data (x1 rRender) 0 0
           @ copy_rows rRender in_stride out_stride (y + 1) (in_data - in_stride) (out_data + out_stride)
      else [])"
  by pat_completeness auto
termination
  by (relation "measure (\<lambda>(rRender, in_stride, out_stride, y, in_data, out_data). nat (y2 rRender - y))") auto

declare clear_target.simps [simp del]
declare copy_row.simps [simp del]
declare copy_rows.simps [simp del]

text \<open>
  \<open>ChatMessageRenderer::getStride\<close> and \<open>getData\<close> read the surface. Cairo's stride of an
  \<open>ARGB32\<close> image surface is four bytes per pixel of its width, and its data is
  \<open>stride \<times> height\<close> bytes.
\<close>

definition getStride :: "ChatMessageRenderer \<Rightarrow> render_error + int" where
  "getStride s = (case m_surface s of None \<Rightarrow> Inl NullPointer | Some sf \<Rightarrow> Inr (4 * surf_width sf))"

definition surface_data_size :: "cairo_surface \<Rightarrow> int" where
  "surface_data_size sf = 4 * surf_width sf * surf_height sf"

text \<open>
  The statement of \<open>effectRender\<close> under ``Copy result to the render target'': \<open>h\<close> is the
  value of \<open>render\<close> and \<open>rRender\<close> the render window already clipped with the image
  bounds.
\<close>

definition copy_result :: "int \<Rightarrow> ChatMessageRenderer \<Rightarrow> int \<Rightarrow> OfxRectI \<Rightarrow> render_error + mem_write list" where
  "copy_result h s out_stride rRender =
     (if h > 0
      then let rIn = \<lparr> x1 = 0, y1 = 0, x2 = m_width s, y2 = h \<rparr>;
               r = clipRectI rRender rIn
           in (case getStride s of
                 Inl e \<Rightarrow> Inl e
               | Inr in_stride \<Rightarrow>
                   let in_data = (h - y1 r - 1) * in_stride + x1 r * 4;
                       out_data = (y1 r) * out_stride + x1 r * 4
                   in Inr (copy_rows r in_stride out_stride (y1 r) in_data out_data))
      else Inr [])"

text \<open>
  \<open>effectRender\<close> from ``Clip the render window with image bounds'' on, for the host's
  values: the time and frame rate, the render window \<open>rRender\<close>, the image bounds \<open>rOut\<close>
  and the image's row bytes \<open>out_stride\<close>. It gives the writes made in the output image
  and the renderer. (Fetching the properties and the checks of the image's depth and
  components are the host protocol, outside the model.)
\<close>

definition effectRender ::
  "text_backend \<Rightarrow> real \<Rightarrow> real \<Rightarrow> OfxRectI \<Rightarrow> OfxRectI \<Rightarrow> int \<Rightarrow> ChatMessageRenderer
     \<Rightarrow> render_error + (mem_write list \<times> ChatMessageRenderer)" where
  "effectRender get_size time framerate rRender rOut out_stride s =
     (let r = clipRectI rRender rOut
      in case clear_target r out_stride (y1 r) of
           Inl e \<Rightarrow> Inl e
         | Inr cleared \<Rightarrow>
             (case render get_size (time / framerate) s of
                Inl e \<Rightarrow> Inl e
              | Inr (h, s1) \<Rightarrow>
                  (case copy_result h s1 out_stride r of
                     Inl e \<Rightarrow> Inl e
                   | Inr copied \<Rightarrow> Inr (cleared @ copied, s1))))"

section \<open>Reference definitions\<close>

text \<open>The brute-force linear scan the range query is compared with.\<close>

definition linear_scan :: "ChatMessage list \<Rightarrow> real \<Rightarrow> real \<Rightarrow> ChatMessage list" where
  "linear_scan msgs lo hi = filter (\<lambda>m. lo \<le> m_time m \<and> m_time m \<le> hi) msgs"

text \<open>The animation curve in the words of the specification.\<close>

definition spec_alpha :: "real \<Rightarrow> real \<Rightarrow> real \<Rightarrow> real \<Rightarrow> real \<Rightarrow> real" where
  "spec_alpha t0 t fadeIn hold fadeOut =
     (let tHoldEnd = t0 + fadeIn; tFadeOutStart = t0 + fadeIn + hold
      in if t < tHoldEnd then (t - t0) / fadeIn
         else if t \<le> tFadeOutStart then 1
         else 1 - (t - tFadeOutStart) / fadeOut)"

definition spec_progress :: "real \<Rightarrow> real \<Rightarrow> real \<Rightarrow> real \<Rightarrow> real \<Rightarrow> real" where
  "spec_progress t0 t fadeIn hold fadeOut =
     (let tHoldEnd = t0 + fadeIn
      in if t < tHoldEnd then spec_alpha t0 t fadeIn hold fadeOut else 1)"

text \<open>A message is drawn when its opacity is above \<open>1/255\<close>.\<close>

definition drawn :: "ChatMessageRenderer \<Rightarrow> ChatMessage \<Rightarrow> real \<Rightarrow> bool" where
  "drawn s msg time = (\<not> fst (alpha_progress s msg time) \<le> 1 / 255)"

text \<open>
  The pixel width and height that the text backend measures for a message: those of the
  renderer's layout once the message's markup is set.
\<close>

definition measured_width :: "text_backend \<Rightarrow> ChatMessageRenderer \<Rightarrow> ChatMessage \<Rightarrow> real \<Rightarrow> int" where
  "measured_width get_size s msg time =
     (case m_layout s of
        None \<Rightarrow> 0
      | Some ly \<Rightarrow>
          PANGO_PIXELS (fst (get_size (ly\<lparr> lay_markup := Some (markup_of s msg (fst (alpha_progress s msg time))) \<rparr>))))"

definition measured_height :: "text_backend \<Rightarrow> ChatMessageRenderer \<Rightarrow> ChatMessage \<Rightarrow> real \<Rightarrow> int" where
  "measured_height get_size s msg time =
     (case m_layout s of
        None \<Rightarrow> 0
      | Some ly \<Rightarrow>
          PANGO_PIXELS (snd (get_size (ly\<lparr> lay_markup := Some (markup_of s msg (fst (alpha_progress s msg time))) \<rparr>))))"

text \<open>What a message adds to the drawing cursor and to the total height.\<close>

definition cursor_step :: "text_backend \<Rightarrow> ChatMessageRenderer \<Rightarrow> ChatMessage \<Rightarrow> real \<Rightarrow> int" where
  "cursor_step get_size s msg time =
     (if drawn s msg time then measured_height get_size s msg time + 3 * m_margin s else 0)"

definition height_term :: "text_backend \<Rightarrow> ChatMessageRenderer \<Rightarrow> ChatMessage \<Rightarrow> real \<Rightarrow> real" where
  "height_term get_size s msg time =
     (if drawn s msg time
      then snd (alpha_progress s msg time) * real_of_int (measured_height get_size s msg time + 3 * m_margin s)
      else 0)"

text \<open>
  The three graphic objects are all absent or all present. The constructor establishes
  this and every operation of the renderer keeps it.
\<close>

definition graphics_consistent :: "ChatMessageRenderer \<Rightarrow> bool" where
  "graphics_consistent s =
     (case m_surface s of
        None \<Rightarrow> m_context s = None \<and> m_layout s = None
      | Some sf \<Rightarrow> m_context s \<noteq> None \<and> m_layout s \<noteq> None)"

text \<open>
  Two renderers with the same configuration and messages, whose graphic objects exist,
  whose layouts differ at most in the markup and whose surfaces have the same size.
\<close>

definition same_setup :: "ChatMessageRenderer \<Rightarrow> ChatMessageRenderer \<Rightarrow> bool" where
  "same_setup s s' =
     (s' = s\<lparr> m_surface := m_surface s', m_context := m_context s', m_layout := m_layout s' \<rparr>
      \<and> (\<exists>ly ly'. m_layout s = Some ly \<and> m_layout s' = Some ly'
            \<and> ly'\<lparr> lay_markup := None \<rparr> = ly\<lparr> lay_markup := None \<rparr>)
      \<and> m_context s \<noteq> None \<and> m_context s' \<noteq> None
      \<and> (\<exists>sf sf'. m_surface s = Some sf \<and> m_surface s' = Some sf'
            \<and> surf_width sf' = surf_width sf \<and> surf_height sf' = surf_height sf))"

text \<open>The opacity of the source colour of a drawing operation.\<close>

definition op_alpha :: "draw_op \<Rightarrow> real" where
  "op_alpha op = (case op of Fill_rounded_rect x y w h r (cr, cg, cb, ca) \<Rightarrow> ca
                  | Show_layout x y mk (cr, cg, cb, ca) \<Rightarrow> ca)"

text \<open>
  The four byte copies that move one pixel from byte offset \<open>src\<close> of the surface data to
  byte offset \<open>dst\<close> of the output image: channels 0 and 2 change places, channels 1 and 3
  keep theirs.
\<close>

definition pixel_copy :: "int \<Rightarrow> int \<Rightarrow> mem_write list" where
  "pixel_copy dst src =
     [Copy_byte (dst + 0) (src + 2), Copy_byte (dst + 1) (src + 1),
      Copy_byte (dst + 2) (src + 0), Copy_byte (dst + 3) (src + 3)]"

text \<open>
  The render pass in the words of the specification, for given operations on doubles:
  the animation curve, the markup of a message, the text height measured for it, whether
  it is drawn, the step of the cursor and the term of the total height. None of them uses
  a definition of the model.
\<close>

definition spec_curve :: "double_ops \<Rightarrow> real \<Rightarrow> real \<Rightarrow> real \<Rightarrow> real \<Rightarrow> real \<Rightarrow> real \<times> real" where
  "spec_curve fp t0 t fadeIn hold fadeOut =
     (let tHoldEnd = d_add fp t0 fadeIn;
          tFadeOutStart = d_add fp (d_add fp t0 fadeIn) hold
      in if t < tHoldEnd
         then (d_div fp (d_sub fp t t0) fadeIn, d_div fp (d_sub fp t t0) fadeIn)
         else if t \<le> tFadeOutStart then (1, 1)
         else (d_sub fp 1 (d_div fp (d_sub fp t tFadeOutStart) fadeOut), 1))"

definition message_curve :: "double_ops \<Rightarrow> ChatMessageRenderer \<Rightarrow> ChatMessage \<Rightarrow> real \<Rightarrow> real \<times> real" where
  "message_curve fp s msg time =
     spec_curve fp (m_time msg) time (m_fade_in_time s) (m_hold_time s) (m_fade_out_time s)"

text \<open>Truncation towards zero, and rounding to the nearest integer with ties away from zero.\<close>

definition toward_zero :: "real \<Rightarrow> int" where
  "toward_zero x = (if 0 \<le> x then \<lfloor>x\<rfloor> else - \<lfloor>- x\<rfloor>)"

definition nearest_away :: "real \<Rightarrow> int" where
  "nearest_away x = (if 0 \<le> x then \<lfloor>x + 1 / 2\<rfloor> else - \<lfloor>1 / 2 - x\<rfloor>)"

definition shown_markup :: "double_ops \<Rightarrow> ChatMessageRenderer \<Rightarrow> ChatMessage \<Rightarrow> real \<Rightarrow> markup" where
  "shown_markup fp s msg alpha =
     \<lparr> mk_red = toward_zero (d_mul fp (fst (m_color_user s)) 255),
       mk_green = toward_zero (d_mul fp (fst (snd (m_color_user s))) 255),
       mk_blue = toward_zero (d_mul fp (snd (snd (m_color_user s))) 255),
       mk_alpha = toward_zero (d_mul fp alpha 255),
       mk_user = m_user msg,
       mk_text = m_text msg \<rparr>"

definition text_height :: "double_ops \<Rightarrow> text_backend \<Rightarrow> ChatMessageRenderer \<Rightarrow> ChatMessage \<Rightarrow> real \<Rightarrow> int" where
  "text_height fp get_size s msg time =
     (case m_layout s of
        None \<Rightarrow> 0
      | Some ly \<Rightarrow>
          (snd (get_size (ly\<lparr> lay_markup := Some (shown_markup fp s msg (fst (message_curve fp s msg time))) \<rparr>))
             + 512) div 1024)"





text \<open>A burst of chat: eight one-line messages, one second apart.\<close>

definition chat_burst :: "ChatMessage list" where
  "chat_burst = [\<lparr>m_time = 0, m_user = ''a'', m_text = ''1''\<rparr>,
            \<lparr>m_time = 1, m_user = ''b'', m_text = ''2''\<rparr>,
            \<lparr>m_time = 2, m_user = ''a'', m_text = ''3''\<rparr>,
            \<lparr>m_time = 3, m_user = ''b'', m_text = ''4''\<rparr>,
            \<lparr>m_time = 4, m_user = ''a'', m_text = ''5''\<rparr>,
            \<lparr>m_time = 5, m_user = ''b'', m_text = ''6''\<rparr>,
            \<lparr>m_time = 6, m_user = ''a'', m_text = ''7''\<rparr>,
            \<lparr>m_time = 7, m_user = ''b'', m_text = ''8''\<rparr>]"

section \<open>The range query\<close>

lemma lower_bound_spec:
  assumes "sorted (map m_time xs)" "first + len \<le> length xs"
    and "\<forall>i<first. m_time (xs ! i) < val"
    and "\<forall>i. first + len \<le> i \<and> i < length xs \<longrightarrow> val \<le> m_time (xs ! i)"
  shows "first \<le> lower_bound xs first len val \<and> lower_bound xs first len val \<le> first + len
     \<and> (\<forall>i<lower_bound xs first len val. m_time (xs ! i) < val)
     \<and> (\<forall>i. lower_bound xs first len val \<le> i \<and> i < length xs \<longrightarrow> val \<le> m_time (xs ! i))"
  using assms
proof (induction xs first len val rule: lower_bound.induct)
  case (1 xs first len val)
  show ?case
  proof (cases "len = 0")
    case True
    with "1.prems" show ?thesis by (simp add: lower_bound.simps)
  next
    case False
    define half where "half = len div 2"
    define middle where "middle = first + half"
    have hl: "half < len" using False by (simp add: half_def)
    have mid: "middle < length xs" using hl "1.prems"(2) by (simp add: middle_def)
    have srt: "\<And>i j. i \<le> j \<Longrightarrow> j < length xs \<Longrightarrow> m_time (xs ! i) \<le> m_time (xs ! j)"
      using "1.prems"(1) by (simp add: sorted_iff_nth_mono)
    show ?thesis
    proof (cases "m_time (xs ! middle) < val")
      case True
      have eq: "lower_bound xs first len val = lower_bound xs (middle + 1) (len - half - 1) val"
        using False True by (subst lower_bound.simps) (simp add: half_def middle_def Let_def)
      have p2: "middle + 1 + (len - half - 1) \<le> length xs"
        using hl "1.prems"(2) by (simp add: middle_def)
      have p3: "\<forall>i<middle + 1. m_time (xs ! i) < val"
      proof (intro allI impI)
        fix i assume "i < middle + 1"
        then have "i \<le> middle" by simp
        from srt[OF this mid] True show "m_time (xs ! i) < val" by simp
      qed
      have p4: "\<forall>i. middle + 1 + (len - half - 1) \<le> i \<and> i < length xs \<longrightarrow> val \<le> m_time (xs ! i)"
        using "1.prems"(4) hl by (simp add: middle_def)
      from "1.IH"(1)[OF False half_def middle_def True "1.prems"(1) p2 p3 p4]
      show ?thesis unfolding eq using hl by (auto simp: middle_def)
    next
      case F2: False
      have eq: "lower_bound xs first len val = lower_bound xs first half val"
        using False F2 by (subst lower_bound.simps) (simp add: half_def middle_def Let_def)
      have p2: "first + half \<le> length xs" using hl "1.prems"(2) by simp
      have p4: "\<forall>i. first + half \<le> i \<and> i < length xs \<longrightarrow> val \<le> m_time (xs ! i)"
      proof (intro allI impI)
        fix i assume a: "first + half \<le> i \<and> i < length xs"
        then have "middle \<le> i" "i < length xs" by (simp_all add: middle_def)
        from srt[OF this] F2 show "val \<le> m_time (xs ! i)" by simp
      qed
      from "1.IH"(2)[OF False half_def middle_def F2 "1.prems"(1) p2 "1.prems"(3) p4]
      show ?thesis unfolding eq using hl by auto
    qed
  qed
qed

lemma upper_bound_spec:
  assumes "sorted (map m_time xs)" "first + len \<le> length xs" "lo \<le> first"
    and "\<forall>i. lo \<le> i \<and> i < first \<longrightarrow> m_time (xs ! i) \<le> val"
    and "\<forall>i. first + len \<le> i \<and> i < length xs \<longrightarrow> val < m_time (xs ! i)"
  shows "first \<le> upper_bound xs first len val \<and> upper_bound xs first len val \<le> first + len
     \<and> (\<forall>i. lo \<le> i \<and> i < upper_bound xs first len val \<longrightarrow> m_time (xs ! i) \<le> val)
     \<and> (\<forall>i. upper_bound xs first len val \<le> i \<and> i < length xs \<longrightarrow> val < m_time (xs ! i))"
  using assms
proof (induction xs first len val rule: upper_bound.induct)
  case (1 xs first len val)
  show ?case
  proof (cases "len = 0")
    case True
    with "1.prems" show ?thesis by (simp add: upper_bound.simps)
  next
    case False
    define half where "half = len div 2"
    define middle where "middle = first + half"
    have hl: "half < len" using False by (simp add: half_def)
    have mid: "middle < length xs" using hl "1.prems"(2) by (simp add: middle_def)
    have srt: "\<And>i j. i \<le> j \<Longrightarrow> j < length xs \<Longrightarrow> m_time (xs ! i) \<le> m_time (xs ! j)"
      using "1.prems"(1) by (simp add: sorted_iff_nth_mono)
    show ?thesis
    proof (cases "val < m_time (xs ! middle)")
      case True
      have eq: "upper_bound xs first len val = upper_bound xs first half val"
        using False True by (subst upper_bound.simps) (simp add: half_def middle_def Let_def)
      have p2: "first + half \<le> length xs" using hl "1.prems"(2) by simp
      have p5: "\<forall>i. first + half \<le> i \<and> i < length xs \<longrightarrow> val < m_time (xs ! i)"
      proof (intro allI impI)
        fix i assume a: "first + half \<le> i \<and> i < length xs"
        then have "middle \<le> i" "i < length xs" by (simp_all add: middle_def)
        from srt[OF this] True show "val < m_time (xs ! i)" by simp
      qed
      from "1.IH"(1)[OF False half_def middle_def True "1.prems"(1) p2 "1.prems"(3) "1.prems"(4) p5]
      show ?thesis unfolding eq using hl by auto
    next
      case F2: False
      have eq: "upper_bound xs first len val = upper_bound xs (middle + 1) (len - half - 1) val"
        using False F2 by (subst upper_bound.simps) (simp add: half_def middle_def Let_def)
      have p2: "middle + 1 + (len - half - 1) \<le> length xs"
        using hl "1.prems"(2) by (simp add: middle_def)
      have p3: "lo \<le> middle + 1" using "1.prems"(3) by (simp add: middle_def)
      have p4: "\<forall>i. lo \<le> i \<and> i < middle + 1 \<longrightarrow> m_time (xs ! i) \<le> val"
      proof (intro allI impI)
        fix i assume "lo \<le> i \<and> i < middle + 1"
        then have "i \<le> middle" by simp
        from srt[OF this mid] F2 show "m_time (xs ! i) \<le> val" by simp
      qed
      have p5: "\<forall>i. middle + 1 + (len - half - 1) \<le> i \<and> i < length xs \<longrightarrow> val < m_time (xs ! i)"
        using "1.prems"(5) hl by (simp add: middle_def)
      from "1.IH"(2)[OF False half_def middle_def F2 "1.prems"(1) p2 p3 p4 p5]
      show ?thesis unfolding eq using hl by (auto simp: middle_def)
    qed
  qed
qed

text \<open>A span of a list that holds exactly the elements satisfying \<open>P\<close> is the filter.\<close>

lemma span_is_filter:
  assumes "a \<le> b" "b \<le> length xs"
    and "\<forall>i<a. \<not> P (xs ! i)"
    and "\<forall>i. a \<le> i \<and> i < b \<longrightarrow> P (xs ! i)"
    and "\<forall>i. b \<le> i \<and> i < length xs \<longrightarrow> \<not> P (xs ! i)"
  shows "take (b - a) (drop a xs) = filter P xs"
proof -
  have split: "xs = take a xs @ take (b - a) (drop a xs) @ drop b xs"
  proof -
    have "drop a xs = take (b - a) (drop a xs) @ drop (b - a) (drop a xs)"
      by (simp only: append_take_drop_id)
    moreover have "drop (b - a) (drop a xs) = drop b xs" using assms(1) by simp
    ultimately show ?thesis by (metis append_take_drop_id)
  qed
  have f1: "filter P (take a xs) = []"
    using assms(1,2,3) by (auto simp: filter_empty_conv in_set_conv_nth)
  have f2: "filter P (take (b - a) (drop a xs)) = take (b - a) (drop a xs)"
    using assms(1,2,4) by (auto simp: filter_id_conv in_set_conv_nth)
  have f3: "filter P (drop b xs) = []"
    using assms(2,5) by (auto simp: filter_empty_conv in_set_conv_nth)
  have "filter P xs = filter P (take a xs @ take (b - a) (drop a xs) @ drop b xs)"
    using split by simp
  also have "\<dots> = take (b - a) (drop a xs)"
    by (simp only: filter_append f1 f2 f3 append_Nil append_Nil2)
  finally show ?thesis by simp
qed

lemma active_is_scan:
  assumes "sorted (map m_time (m_messages s))"
  shows "active_messages s time =
     linear_scan (m_messages s) (time - (m_fade_in_time s + m_hold_time s + m_fade_out_time s)) time"
proof -
  define xs where "xs = m_messages s"
  define lo where "lo = time - (m_fade_in_time s + m_hold_time s + m_fade_out_time s)"
  define a where "a = lower_bound xs 0 (length xs) lo"
  define b where "b = upper_bound xs a (length xs - a) time"
  have srt: "sorted (map m_time xs)" using assms by (simp add: xs_def)
  have A: "a \<le> length xs \<and> (\<forall>i<a. m_time (xs ! i) < lo)
      \<and> (\<forall>i. a \<le> i \<and> i < length xs \<longrightarrow> lo \<le> m_time (xs ! i))"
    using lower_bound_spec[OF srt, of 0 "length xs" lo] by (simp add: a_def)
  then have al: "a + (length xs - a) \<le> length xs" by simp
  have B: "a \<le> b \<and> b \<le> length xs
      \<and> (\<forall>i. a \<le> i \<and> i < b \<longrightarrow> m_time (xs ! i) \<le> time)
      \<and> (\<forall>i. b \<le> i \<and> i < length xs \<longrightarrow> time < m_time (xs ! i))"
    using upper_bound_spec[OF srt al, of a time] A by (simp add: b_def)
  have "take (b - a) (drop a xs) = filter (\<lambda>m. lo \<le> m_time m \<and> m_time m \<le> time) xs"
  proof (rule span_is_filter)
    show "a \<le> b" "b \<le> length xs" using B by simp_all
    show "\<forall>i<a. \<not> (lo \<le> m_time (xs ! i) \<and> m_time (xs ! i) \<le> time)" using A by auto
    show "\<forall>i. a \<le> i \<and> i < b \<longrightarrow> lo \<le> m_time (xs ! i) \<and> m_time (xs ! i) \<le> time"
      using A B by auto
    show "\<forall>i. b \<le> i \<and> i < length xs \<longrightarrow> \<not> (lo \<le> m_time (xs ! i) \<and> m_time (xs ! i) \<le> time)"
      using B by auto
  qed
  then show ?thesis
    by (simp add: active_messages_def linear_scan_def Let_def xs_def lo_def a_def b_def)
qed

text \<open>
  Claim C1. For a message store sorted ascending by timestamp, the active range that
  \<open>render\<close> computes with \<open>lower_bound\<close> on \<open>time - window\<close> and \<open>upper_bound\<close> on \<open>time\<close>,
  where \<open>window\<close> is the sum of the fade-in, hold and fade-out times, is the result of the
  linear scan for the timestamps in the closed interval \<open>[time - window, time]\<close>: the same
  entries, in the same order.
\<close>

theorem active_messages_linear_scan:
  "sorted (map m_time (m_messages s)) \<Longrightarrow>
   active_messages s time =
     linear_scan (m_messages s) (time - (m_fade_in_time s + m_hold_time s + m_fade_out_time s)) time"
  by (rule active_is_scan)

theorem active_messages_linear_scan_witness:
  "sorted (map m_time (m_messages (new_renderer
      [\<lparr>m_time = 0, m_user = ''a'', m_text = ''hi''\<rparr>,
       \<lparr>m_time = 5, m_user = ''b'', m_text = ''yo''\<rparr>,
       \<lparr>m_time = 30, m_user = ''c'', m_text = ''x''\<rparr>])))
   \<and> active_messages (new_renderer
      [\<lparr>m_time = 0, m_user = ''a'', m_text = ''hi''\<rparr>,
       \<lparr>m_time = 5, m_user = ''b'', m_text = ''yo''\<rparr>,
       \<lparr>m_time = 30, m_user = ''c'', m_text = ''x''\<rparr>]) 20
     = [\<lparr>m_time = 5, m_user = ''b'', m_text = ''yo''\<rparr>]"
  using active_messages_linear_scan [of "new_renderer
      [\<lparr>m_time = 0, m_user = ''a'', m_text = ''hi''\<rparr>,
       \<lparr>m_time = 5, m_user = ''b'', m_text = ''yo''\<rparr>,
       \<lparr>m_time = 30, m_user = ''c'', m_text = ''x''\<rparr>]" 20]
  by (simp add: new_renderer_def linear_scan_def)

section \<open>The animation curve\<close>

lemma alpha_progress_spec:
  "alpha_progress s msg t =
     (spec_alpha (m_time msg) t (m_fade_in_time s) (m_hold_time s) (m_fade_out_time s),
      spec_progress (m_time msg) t (m_fade_in_time s) (m_hold_time s) (m_fade_out_time s))"
  by (simp add: alpha_progress_def spec_alpha_def spec_progress_def Let_def)

lemma drawMessage_progress:
  "drawMessage get_size msg t s = Inr (h, p, s') \<Longrightarrow> p = snd (alpha_progress s msg t)"
  by (auto simp: drawMessage_def Let_def paint_def drawBackground_def set_source_rgba_def
        split: prod.splits if_splits option.splits sum.splits)

text \<open>
  Claim C2. For positive fade-in and fade-out times and a hold time that is not negative,
  the opacity and progress that \<open>drawMessage\<close> computes are those of the specification's
  piecewise curve: the ramp \<open>(t - t0) / fadeIn\<close> for both before \<open>t0 + fadeIn\<close>, then 1 for
  both up to and including \<open>t0 + fadeIn + hold\<close>, then the ramp
  \<open>1 - (t - (t0 + fadeIn + hold)) / fadeOut\<close> with progress 1. The progress it returns is
  the curve's. The opacity is 0 at \<open>t0\<close> and 1 at \<open>t0 + fadeIn\<close>.
\<close>

theorem drawMessage_curve:
  assumes "0 < m_fade_in_time s" "0 \<le> m_hold_time s" "0 < m_fade_out_time s"
  shows "alpha_progress s msg t =
     (spec_alpha (m_time msg) t (m_fade_in_time s) (m_hold_time s) (m_fade_out_time s),
      spec_progress (m_time msg) t (m_fade_in_time s) (m_hold_time s) (m_fade_out_time s))
   \<and> (\<forall>h p s'. drawMessage get_size msg t s = Inr (h, p, s') \<longrightarrow>
         p = spec_progress (m_time msg) t (m_fade_in_time s) (m_hold_time s) (m_fade_out_time s))
   \<and> fst (alpha_progress s msg (m_time msg)) = 0
   \<and> fst (alpha_progress s msg (m_time msg + m_fade_in_time s)) = 1"
proof (intro conjI allI impI)
  show "alpha_progress s msg t =
     (spec_alpha (m_time msg) t (m_fade_in_time s) (m_hold_time s) (m_fade_out_time s),
      spec_progress (m_time msg) t (m_fade_in_time s) (m_hold_time s) (m_fade_out_time s))"
    by (rule alpha_progress_spec)
next
  fix h p s' assume "drawMessage get_size msg t s = Inr (h, p, s')"
  from drawMessage_progress[OF this]
  show "p = spec_progress (m_time msg) t (m_fade_in_time s) (m_hold_time s) (m_fade_out_time s)"
    by (simp add: alpha_progress_spec)
next
  show "fst (alpha_progress s msg (m_time msg)) = 0"
    using assms(1) by (simp add: alpha_progress_def Let_def)
next
  show "fst (alpha_progress s msg (m_time msg + m_fade_in_time s)) = 1"
    using assms(2) by (simp add: alpha_progress_def Let_def)
qed

theorem drawMessage_curve_witness:
  "0 < m_fade_in_time (new_renderer []) \<and> 0 \<le> m_hold_time (new_renderer [])
   \<and> 0 < m_fade_out_time (new_renderer [])
   \<and> alpha_progress (new_renderer []) \<lparr>m_time = 2, m_user = ''a'', m_text = ''hi''\<rparr> (5 / 2) = (1 / 2, 1 / 2)
   \<and> fst (alpha_progress (new_renderer []) \<lparr>m_time = 2, m_user = ''a'', m_text = ''hi''\<rparr> 2) = 0
   \<and> fst (alpha_progress (new_renderer []) \<lparr>m_time = 2, m_user = ''a'', m_text = ''hi''\<rparr> 3) = 1"
  using drawMessage_curve [of "new_renderer []" "\<lparr>m_time = 2, m_user = ''a'', m_text = ''hi''\<rparr>" "5 / 2"]
  by (simp add: new_renderer_def spec_alpha_def spec_progress_def)

section \<open>The render pass\<close>

lemma layout_markup_irrelevant:
  "ly'\<lparr> lay_markup := None \<rparr> = ly\<lparr> lay_markup := None \<rparr> \<Longrightarrow>
   ly'\<lparr> lay_markup := x \<rparr> = (ly\<lparr> lay_markup := x \<rparr> :: pango_layout)"
  by (cases ly, cases ly') simp

lemma step_margin:
  assumes "s' = s\<lparr> m_surface := a, m_context := b, m_layout := c \<rparr>"
  shows "m_margin s' = m_margin s"
  using assms by simp

lemma step_width:
  assumes "s' = s\<lparr> m_surface := a, m_context := b, m_layout := c \<rparr>"
  shows "m_width s' = m_width s"
  using assms by simp

lemma step_alpha_progress:
  assumes "s' = s\<lparr> m_surface := a, m_context := b, m_layout := c \<rparr>"
  shows "alpha_progress s' msg time = alpha_progress s msg time"
  using assms by (simp add: alpha_progress_def Let_def)

lemma step_markup_of:
  assumes "s' = s\<lparr> m_surface := a, m_context := b, m_layout := c \<rparr>"
  shows "markup_of s' msg al = markup_of s msg al"
  using assms by (simp add: markup_of_def)

lemma same_setup_terms:
  assumes "same_setup s s'"
  shows "cursor_step get_size s' msg time = cursor_step get_size s msg time"
    and "height_term get_size s' msg time = height_term get_size s msg time"
proof -
  from assms have eq: "s' = s\<lparr> m_surface := m_surface s', m_context := m_context s', m_layout := m_layout s' \<rparr>"
    by (simp add: same_setup_def)
  from assms obtain ly ly' where ly: "m_layout s = Some ly" "m_layout s' = Some ly'"
      "ly'\<lparr> lay_markup := None \<rparr> = ly\<lparr> lay_markup := None \<rparr>"
    by (auto simp: same_setup_def)
  have ap: "alpha_progress s' msg time = alpha_progress s msg time"
    by (rule step_alpha_progress[OF eq])
  have mk: "\<And>al. markup_of s' msg al = markup_of s msg al"
    by (rule step_markup_of[OF eq])
  have mg: "m_margin s' = m_margin s" by (rule step_margin[OF eq])
  have dr: "drawn s' msg time = drawn s msg time" by (simp add: drawn_def ap)
  have mh: "measured_height get_size s' msg time = measured_height get_size s msg time"
    by (simp add: measured_height_def ly(1,2) ap mk layout_markup_irrelevant[OF ly(3)])
  show "cursor_step get_size s' msg time = cursor_step get_size s msg time"
    by (simp add: cursor_step_def dr mh mg)
  show "height_term get_size s' msg time = height_term get_size s msg time"
    by (simp add: height_term_def dr mh mg ap)
qed

lemma same_setup_context:
  assumes "same_setup s s'"
  shows "same_setup s (s'\<lparr> m_context := Some c \<rparr>)"
proof -
  from assms have eq: "s' = s\<lparr> m_surface := m_surface s', m_context := m_context s', m_layout := m_layout s' \<rparr>"
    by (simp add: same_setup_def)
  have "s'\<lparr> m_context := Some c \<rparr> = s\<lparr> m_surface := m_surface s', m_context := Some c, m_layout := m_layout s' \<rparr>"
    by (subst eq) simp
  then show ?thesis using assms by (simp add: same_setup_def)
qed

lemma same_setup_trans:
  assumes "same_setup s s'" "same_setup s' s''"
  shows "same_setup s s''"
proof -
  from assms(1) have e1: "s' = s\<lparr> m_surface := m_surface s', m_context := m_context s', m_layout := m_layout s' \<rparr>"
    by (simp add: same_setup_def)
  from assms(2) have e2: "s'' = s'\<lparr> m_surface := m_surface s'', m_context := m_context s'', m_layout := m_layout s'' \<rparr>"
    by (simp add: same_setup_def)
  have "s'' = s\<lparr> m_surface := m_surface s'', m_context := m_context s'', m_layout := m_layout s'' \<rparr>"
    by (subst e2, subst e1) simp
  then show ?thesis using assms by (auto simp: same_setup_def)
qed

lemma drawMessage_effect:
  assumes "m_layout s = Some ly" "m_context s = Some cx" "m_surface s = Some sf"
  shows "\<exists>s' cx'. drawMessage get_size msg time s
           = Inr (cursor_step get_size s msg time, snd (alpha_progress s msg time), s')
         \<and> same_setup s s'
         \<and> m_context s' = Some cx' \<and> ctx_tx cx' = ctx_tx cx \<and> ctx_ty cx' = ctx_ty cx"
proof (cases "drawn s msg time")
  case False
  obtain al pr where ap: "alpha_progress s msg time = (al, pr)" by (cases "alpha_progress s msg time")
  with False have "drawMessage get_size msg time s = Inr (0, snd (alpha_progress s msg time), s)"
    by (simp add: drawMessage_def drawn_def)
  moreover have "same_setup s s" using assms by (simp add: same_setup_def)
  ultimately show ?thesis using False assms by (simp add: cursor_step_def)
next
  case True
  obtain al pr where ap: "alpha_progress s msg time = (al, pr)" by (cases "alpha_progress s msg time")
  obtain cr cg cb ca where bg: "m_color_bg s = (cr, cg, cb, ca)" by (cases "m_color_bg s") auto
  obtain tr tg tb where tx: "m_color_text s = (tr, tg, tb)" by (cases "m_color_text s") auto
  from True ap have nal: "\<not> al \<le> 1 / 255" by (simp add: drawn_def)
  show ?thesis
    using assms nal True
    by (simp add: drawMessage_def ap bg tx drawBackground_def set_source_rgba_def paint_def Let_def
          cursor_step_def measured_height_def same_setup_def)
qed

lemma render_loop_sum:
  assumes "m_layout s = Some ly" "m_context s = Some cx" "m_surface s = Some sf"
  shows "\<exists>s' cx'. render_loop get_size msgs time th s
           = Inr (th + (\<Sum>m\<leftarrow>msgs. height_term get_size s m time), s')
         \<and> same_setup s s'
         \<and> m_context s' = Some cx' \<and> ctx_tx cx' = ctx_tx cx
         \<and> ctx_ty cx' = ctx_ty cx + (\<Sum>m\<leftarrow>msgs. cursor_step get_size s m time)"
  using assms
proof (induction msgs arbitrary: s th ly cx sf)
  case Nil
  then show ?case by (simp add: same_setup_def)
next
  case (Cons msg msgs)
  from drawMessage_effect[OF Cons.prems, of get_size msg time]
  obtain s1 cx1 where d: "drawMessage get_size msg time s
           = Inr (cursor_step get_size s msg time, snd (alpha_progress s msg time), s1)"
      and ss1: "same_setup s s1"
      and c1: "m_context s1 = Some cx1" "ctx_tx cx1 = ctx_tx cx" "ctx_ty cx1 = ctx_ty cx"
    by blast
  define h where "h = cursor_step get_size s msg time"
  define s2 where "s2 = s1\<lparr> m_context := Some (translate 0 h cx1) \<rparr>"
  have ss2: "same_setup s s2" unfolding s2_def by (rule same_setup_context[OF ss1])
  then obtain ly2 sf2 where l2: "m_layout s2 = Some ly2" and f2: "m_surface s2 = Some sf2"
    by (auto simp: same_setup_def)
  have c2: "m_context s2 = Some (translate 0 h cx1)" by (simp add: s2_def)
  from Cons.IH[OF l2 c2 f2, of "th + snd (alpha_progress s msg time) * real_of_int h"]
  obtain s' cx' where r: "render_loop get_size msgs time (th + snd (alpha_progress s msg time) * real_of_int h) s2
           = Inr (th + snd (alpha_progress s msg time) * real_of_int h + (\<Sum>m\<leftarrow>msgs. height_term get_size s2 m time), s')"
      and ss': "same_setup s2 s'"
      and c': "m_context s' = Some cx'" "ctx_tx cx' = ctx_tx (translate 0 h cx1)"
         "ctx_ty cx' = ctx_ty (translate 0 h cx1) + (\<Sum>m\<leftarrow>msgs. cursor_step get_size s2 m time)"
    by blast
  have t1: "(\<Sum>m\<leftarrow>msgs. height_term get_size s2 m time) = (\<Sum>m\<leftarrow>msgs. height_term get_size s m time)"
    by (simp add: same_setup_terms(2)[OF ss2])
  have t2: "(\<Sum>m\<leftarrow>msgs. cursor_step get_size s2 m time) = (\<Sum>m\<leftarrow>msgs. cursor_step get_size s m time)"
    by (simp add: same_setup_terms(1)[OF ss2])
  have ph: "snd (alpha_progress s msg time) * real_of_int h = height_term get_size s msg time"
    by (simp add: h_def cursor_step_def height_term_def)
  have loop: "render_loop get_size (msg # msgs) time th s
      = render_loop get_size msgs time (th + snd (alpha_progress s msg time) * real_of_int h) s2"
    by (simp add: d c1 h_def s2_def)
  have "render_loop get_size (msg # msgs) time th s
      = Inr (th + (\<Sum>m\<leftarrow>msg # msgs. height_term get_size s m time), s')"
    using loop r t1 ph by (simp add: add.assoc)
  moreover have "same_setup s s'" by (rule same_setup_trans[OF ss2 ss'])
  moreover have "ctx_tx cx' = ctx_tx cx" using c'(2) c1(2) by (simp add: translate_def)
  moreover have "ctx_ty cx' = ctx_ty cx + (\<Sum>m\<leftarrow>msg # msgs. cursor_step get_size s m time)"
    using c'(3) c1(3) t2 by (simp add: translate_def h_def)
  ultimately show ?case using c'(1) by blast
qed

lemma drawInit_ready:
  assumes "graphics_consistent s"
  shows "\<exists>s1 ly cx sf. drawInit s = Inr s1 \<and> m_layout s1 = Some ly \<and> m_context s1 = Some cx
     \<and> m_surface s1 = Some sf \<and> m_margin s1 = m_margin s \<and> surf_ops sf = []"
  using assms
  by (auto simp: graphics_consistent_def drawInit_def split: option.splits)

lemma render_active:
  assumes "graphics_consistent s" "active_messages s time \<noteq> []"
  shows "\<exists>s1 s2 cx.
     drawInit s = Inr s1
     \<and> render get_size time s
         = Inr (int_of_double (c_round (\<Sum>m\<leftarrow>active_messages s time. height_term get_size s1 m time)), s2)
     \<and> m_context s2 = Some cx
     \<and> ctx_tx cx = m_margin s
     \<and> ctx_ty cx = (\<Sum>m\<leftarrow>active_messages s time. cursor_step get_size s1 m time)
     \<and> graphics_consistent s2
     \<and> m_width s2 = m_width s1
     \<and> (\<exists>sf1 sf2. m_surface s1 = Some sf1 \<and> m_surface s2 = Some sf2
           \<and> surf_width sf2 = surf_width sf1 \<and> surf_height sf2 = surf_height sf1)"
proof -
  from drawInit_ready[OF assms(1)]
  obtain s1 ly cx sf where di: "drawInit s = Inr s1" and l1: "m_layout s1 = Some ly"
      and c1: "m_context s1 = Some cx" and f1: "m_surface s1 = Some sf" and mg: "m_margin s1 = m_margin s"
    by blast
  define cx0 where "cx0 = translate (m_margin s1) 0 (set_identity_matrix cx)"
  define s1' where "s1' = s1\<lparr> m_context := Some cx0 \<rparr>"
  have l1': "m_layout s1' = Some ly" and c1': "m_context s1' = Some cx0" and f1': "m_surface s1' = Some sf"
    using l1 f1 by (simp_all add: s1'_def)
  have ss: "same_setup s1 s1'"
    unfolding s1'_def
  proof (rule same_setup_context)
    show "same_setup s1 s1" using l1 c1 f1 by (simp add: same_setup_def)
  qed
  from render_loop_sum[OF l1' c1' f1', of get_size "active_messages s time" time 0]
  obtain s2 cx2 where r: "render_loop get_size (active_messages s time) time 0 s1'
           = Inr (0 + (\<Sum>m\<leftarrow>active_messages s time. height_term get_size s1' m time), s2)"
      and ss2: "same_setup s1' s2"
      and c2: "m_context s2 = Some cx2" "ctx_tx cx2 = ctx_tx cx0"
         "ctx_ty cx2 = ctx_ty cx0 + (\<Sum>m\<leftarrow>active_messages s time. cursor_step get_size s1' m time)"
    by blast
  from ss2 obtain sf2 where f2: "m_surface s2 = Some sf2" by (auto simp: same_setup_def)
  have t1: "(\<Sum>m\<leftarrow>active_messages s time. height_term get_size s1' m time)
      = (\<Sum>m\<leftarrow>active_messages s time. height_term get_size s1 m time)"
    by (simp add: same_setup_terms(2)[OF ss])
  have t2: "(\<Sum>m\<leftarrow>active_messages s time. cursor_step get_size s1' m time)
      = (\<Sum>m\<leftarrow>active_messages s time. cursor_step get_size s1 m time)"
    by (simp add: same_setup_terms(1)[OF ss])
  have "render get_size time s
         = Inr (int_of_double (c_round (\<Sum>m\<leftarrow>active_messages s time. height_term get_size s1 m time)), s2)"
    using assms(2) r[unfolded t1] f2
    by (simp add: render_def Let_def di c1 s1'_def cx0_def)
  moreover have "ctx_tx cx2 = m_margin s"
    using c2(2) mg by (simp add: cx0_def translate_def set_identity_matrix_def)
  moreover have "ctx_ty cx2 = (\<Sum>m\<leftarrow>active_messages s time. cursor_step get_size s1 m time)"
    using c2(3) t2 by (simp add: cx0_def translate_def set_identity_matrix_def)
  moreover have "graphics_consistent s2"
    using ss2 f2 by (auto simp: same_setup_def graphics_consistent_def)
  moreover have "m_width s2 = m_width s1"
  proof -
    from ss2 have "s2 = s1'\<lparr> m_surface := m_surface s2, m_context := m_context s2, m_layout := m_layout s2 \<rparr>"
      by (simp add: same_setup_def)
    then have "m_width s2 = m_width s1'" by (rule step_width)
    then show ?thesis by (simp add: s1'_def)
  qed
  moreover have "\<exists>sf1 sf2. m_surface s1 = Some sf1 \<and> m_surface s2 = Some sf2
           \<and> surf_width sf2 = surf_width sf1 \<and> surf_height sf2 = surf_height sf1"
    using ss2 f1' f1 by (auto simp: same_setup_def)
  ultimately show ?thesis using di c2(1) by blast
qed

text \<open>The constructor and every operation keep the graphic objects consistent.\<close>

lemma new_renderer_consistent: "graphics_consistent (new_renderer messages)"
  by (simp add: graphics_consistent_def new_renderer_def)

lemma setters_consistent:
  assumes "graphics_consistent s"
  shows "graphics_consistent (setMessages messages s)"
    "graphics_consistent (setWidth width s)" "graphics_consistent (setHeight height s)"
    "graphics_consistent (setMargin margin s)"
    "graphics_consistent (setColorBackground bg s)" "graphics_consistent (setColorUser cu s)"
    "graphics_consistent (setColorText ct s)"
    "graphics_consistent (setFadeInTime t s)" "graphics_consistent (setHoldTime t s)"
    "graphics_consistent (setFadeOutTime t s)"
  using assms
  by (auto simp: graphics_consistent_def setMessages_def setWidth_def setHeight_def setMargin_def
        drawRelease_def setColorBackground_def setColorUser_def setColorText_def
        setFadeInTime_def setHoldTime_def setFadeOutTime_def split: option.splits)

lemma render_consistent:
  assumes "graphics_consistent s" "render get_size time s = Inr (h, s')"
  shows "graphics_consistent s'"
proof (cases "active_messages s time = []")
  case True
  with assms show ?thesis by (simp add: render_def Let_def)
next
  case False
  from render_active [OF assms(1) False, of get_size] assms(2) show ?thesis by auto
qed

subsection \<open>The total height in the arithmetic of doubles\<close>



lemma nearest_away_nearest: "\<bar>real_of_int (nearest_away x) - x\<bar> \<le> 1 / 2"
proof -
  have f: "real_of_int \<lfloor>y\<rfloor> \<le> y \<and> y < real_of_int \<lfloor>y\<rfloor> + 1" for y :: real
    by linarith
  show ?thesis
  proof (cases "0 \<le> x")
    case True
    then have e: "real_of_int (nearest_away x) = real_of_int \<lfloor>x + 1 / 2\<rfloor>"
      by (simp add: nearest_away_def)
    show ?thesis unfolding e using f [of "x + 1 / 2"] by linarith
  next
    case False
    then have e: "real_of_int (nearest_away x) = - real_of_int \<lfloor>1 / 2 - x\<rfloor>"
      by (simp add: nearest_away_def)
    show ?thesis unfolding e using f [of "1 / 2 - x"] by linarith
  qed
qed












text \<open>With the operations of the reals the second model is the first.\<close>

lemma exact_ops_sel:
  "d_add exact_ops = (+)" "d_sub exact_ops = (-)" "d_mul exact_ops = (*)" "d_div exact_ops = (/)"
  by (simp_all add: exact_ops_def)

lemma alpha_progress_fp_exact: "alpha_progress_fp exact_ops s msg time = alpha_progress s msg time"
  by (simp add: alpha_progress_fp_def alpha_progress_def exact_ops_sel Let_def)

lemma drawMessage_fp_exact: "drawMessage_fp exact_ops get_size msg time s = drawMessage get_size msg time s"
proof -
  have m: "markup_of_fp exact_ops = markup_of"
    by (intro ext) (simp add: markup_of_fp_def markup_of_def exact_ops_sel)
  have b: "drawBackground_fp exact_ops = drawBackground"
    by (intro ext)
       (simp add: drawBackground_fp_def drawBackground_def exact_ops_sel Let_def
          split: option.splits prod.splits)
  have d: "d_div exact_ops 1 255 = 1 / 255" by (simp add: exact_ops_sel)
  show ?thesis
    by (simp only: drawMessage_fp_def drawMessage_def alpha_progress_fp_exact m b d)
qed

lemma render_loop_fp_exact:
  "render_loop_fp exact_ops get_size msgs time th s = render_loop get_size msgs time th s"
proof (induction msgs arbitrary: th s)
  case Nil
  show ?case by simp
next
  case (Cons msg msgs)
  show ?case
    by (simp only: render_loop_fp.simps render_loop.simps drawMessage_fp_exact Cons.IH exact_ops_sel)
qed

lemma render_fp_exact: "render_fp exact_ops get_size time s = render get_size time s"
proof -
  have a: "active_messages_fp exact_ops s time = active_messages s time"
    by (simp add: active_messages_fp_def active_messages_def exact_ops_sel Let_def)
  show ?thesis
    by (simp only: render_fp_def render_def a render_loop_fp_exact)
qed




lemma active_messages_empty_store: "m_messages s = [] \<Longrightarrow> active_messages s time = []"
  by (simp add: active_messages_def Let_def)

text \<open>
  Claim C4. When the active range is empty, and so whenever the message store is empty,
  \<open>render\<close> returns 0 and the renderer is as before: no surface is created, and an
  existing surface, context and layout are unchanged.
\<close>

theorem render_nothing_active:
  "(active_messages s time = [] \<longrightarrow> render get_size time s = Inr (0, s))
   \<and> (m_messages s = [] \<longrightarrow> render get_size time s = Inr (0, s))"
  by (simp add: render_def Let_def active_messages_empty_store)

theorem render_nothing_active_witness:
  "active_messages (new_renderer [\<lparr>m_time = 0, m_user = ''a'', m_text = ''hi''\<rparr>,
                                   \<lparr>m_time = 5, m_user = ''b'', m_text = ''yo''\<rparr>]) 25 = []
   \<and> render (\<lambda>ly. (0, 0)) 25 (new_renderer [\<lparr>m_time = 0, m_user = ''a'', m_text = ''hi''\<rparr>,
                                   \<lparr>m_time = 5, m_user = ''b'', m_text = ''yo''\<rparr>])
       = Inr (0, new_renderer [\<lparr>m_time = 0, m_user = ''a'', m_text = ''hi''\<rparr>,
                                   \<lparr>m_time = 5, m_user = ''b'', m_text = ''yo''\<rparr>])
   \<and> m_messages (new_renderer []) = []
   \<and> render (\<lambda>ly. (0, 0)) 25 (new_renderer []) = Inr (0, new_renderer [])"
  using render_nothing_active [of "new_renderer [\<lparr>m_time = 0, m_user = ''a'', m_text = ''hi''\<rparr>,
                                   \<lparr>m_time = 5, m_user = ''b'', m_text = ''yo''\<rparr>]" 25 "\<lambda>ly. (0, 0)"]
    render_nothing_active [of "new_renderer []" 25 "\<lambda>ly. (0, 0)"]
  by (simp add: new_renderer_def active_messages_def lower_bound.simps upper_bound.simps Let_def)

section \<open>The opacity of what is drawn\<close>

lemma alpha_upper:
  assumes "0 < m_fade_in_time s" "0 < m_fade_out_time s"
  shows "fst (alpha_progress s msg time) \<le> 1"
proof -
  define t_hold where "t_hold = m_time msg + m_fade_in_time s"
  define t_fout where "t_fout = m_time msg + m_fade_in_time s + m_hold_time s"
  consider (a) "time < t_hold" | (b) "\<not> time < t_hold" "time > t_fout" | (c) "\<not> time < t_hold" "\<not> time > t_fout"
    by blast
  then show ?thesis
  proof cases
    case a
    then have "time - m_time msg < m_fade_in_time s" by (simp add: t_hold_def)
    then have "(time - m_time msg) / m_fade_in_time s \<le> 1" using assms(1) by simp
    then show ?thesis using a by (simp add: alpha_progress_def Let_def t_hold_def)
  next
    case b
    then have "0 \<le> (time - t_fout) / m_fade_out_time s" using assms(2) by simp
    then show ?thesis using b by (simp add: alpha_progress_def Let_def t_hold_def t_fout_def)
  next
    case c
    then show ?thesis by (simp add: alpha_progress_def Let_def t_hold_def t_fout_def)
  qed
qed

lemma drawMessage_skipped:
  assumes "fst (alpha_progress s msg time) \<le> 1 / 255"
  shows "drawMessage get_size msg time s = Inr (0, snd (alpha_progress s msg time), s)"
proof -
  obtain al pr where ap: "alpha_progress s msg time = (al, pr)" by (cases "alpha_progress s msg time")
  with assms show ?thesis by (simp add: drawMessage_def)
qed

lemma drawMessage_drawn_ops:
  assumes "\<not> fst (alpha_progress s msg time) \<le> 1 / 255"
    and "drawMessage get_size msg time s = Inr (h, p, s')"
    and "m_surface s = Some sf"
    and "m_color_bg s = (cr, cg, cb, ca)" "m_color_text s = (tr, tg, tb)"
  shows "\<exists>cx sf'. m_context s = Some cx \<and> m_surface s' = Some sf' \<and>
     surf_ops sf' = surf_ops sf @
       [Fill_rounded_rect (ctx_tx cx) (ctx_ty cx)
          (real_of_int (measured_width get_size s msg time + 2 * m_margin s))
          (real_of_int (measured_height get_size s msg time + 2 * m_margin s))
          (1.5 * real_of_int (m_margin s))
          (clamp01 cr, clamp01 cg, clamp01 cb, clamp01 (ca * fst (alpha_progress s msg time))),
        Show_layout (ctx_tx cx + m_margin s) (ctx_ty cx + m_margin s)
          (Some (markup_of s msg (fst (alpha_progress s msg time))))
          (clamp01 tr, clamp01 tg, clamp01 tb, clamp01 (fst (alpha_progress s msg time)))]"
proof -
  obtain al pr where ap: "alpha_progress s msg time = (al, pr)" by (cases "alpha_progress s msg time")
  from assms(1) ap have nal: "\<not> al \<le> 1 / 255" by simp
  from assms(2) nal obtain ly where ly: "m_layout s = Some ly"
    by (cases "m_layout s") (simp_all add: drawMessage_def ap)
  from assms(2) nal ly obtain cx where cx: "m_context s = Some cx"
    by (cases "m_context s") (simp_all add: drawMessage_def ap drawBackground_def Let_def)
  show ?thesis
    using assms(2-) nal
    by (auto simp: drawMessage_def ap ly cx drawBackground_def set_source_rgba_def paint_def Let_def
          measured_width_def measured_height_def)
qed

lemma clamp01_unit: "0 \<le> clamp01 x \<and> clamp01 x \<le> 1"
  by (simp add: clamp01_def)

lemma clamp01_id: "0 \<le> x \<Longrightarrow> x \<le> 1 \<Longrightarrow> clamp01 x = x"
  by (simp add: clamp01_def)

text \<open>
  Claim C5. For positive fade-in and fade-out times, whatever the hold time, the colours
  and the message, every drawing operation that \<open>drawMessage\<close> adds to the surface has a
  source opacity in \<open>[0, 1]\<close>. A message whose \<open>alpha\<close> is at most \<open>1/255\<close> adds none. For
  a message that is drawn, \<open>alpha\<close> is above \<open>1/255\<close> and at most 1 by the curve alone; the
  text is shown with exactly \<open>alpha\<close>, and the box is filled with the background opacity
  times \<open>alpha\<close> as Cairo restricts it to \<open>[0, 1]\<close>, which is the product itself whenever
  the configured background opacity is in \<open>[0, 1]\<close>.
\<close>

theorem tint_alpha_in_unit_interval:
  assumes "0 < m_fade_in_time s" "0 < m_fade_out_time s"
    and "m_surface s = Some sf" "drawMessage get_size msg time s = Inr (h, p, s')"
  shows "\<exists>sf' new. m_surface s' = Some sf' \<and> surf_ops sf' = surf_ops sf @ new
     \<and> (\<forall>op \<in> set new. 0 \<le> op_alpha op \<and> op_alpha op \<le> 1)
     \<and> (if fst (alpha_progress s msg time) \<le> 1 / 255 then new = []
         else 1 / 255 < fst (alpha_progress s msg time) \<and> fst (alpha_progress s msg time) \<le> 1
              \<and> map op_alpha new
                  = [clamp01 (snd (snd (snd (m_color_bg s))) * fst (alpha_progress s msg time)),
                     fst (alpha_progress s msg time)]
              \<and> (0 \<le> snd (snd (snd (m_color_bg s))) \<and> snd (snd (snd (m_color_bg s))) \<le> 1 \<longrightarrow>
                    map op_alpha new
                      = [snd (snd (snd (m_color_bg s))) * fst (alpha_progress s msg time),
                         fst (alpha_progress s msg time)]))"
proof -
  obtain cr cg cb ca where bg: "m_color_bg s = (cr, cg, cb, ca)" by (cases "m_color_bg s") auto
  obtain tr tg tb where tx: "m_color_text s = (tr, tg, tb)" by (cases "m_color_text s") auto
  define al where "al = fst (alpha_progress s msg time)"
  have up: "al \<le> 1" unfolding al_def by (rule alpha_upper[OF assms(1,2)])
  show ?thesis
  proof (cases "al \<le> 1 / 255")
    case True
    then have "drawMessage get_size msg time s = Inr (0, snd (alpha_progress s msg time), s)"
      unfolding al_def by (rule drawMessage_skipped)
    with assms(4) have "s' = s" by simp
    with assms(3) True show ?thesis by (simp add: al_def)
  next
    case False
    then have low: "1 / 255 < al" and pos: "0 \<le> al" by simp_all
    from False have nal: "\<not> fst (alpha_progress s msg time) \<le> 1 / 255" by (simp add: al_def)
    define new where "new cx = [Fill_rounded_rect (ctx_tx cx) (ctx_ty cx)
          (real_of_int (measured_width get_size s msg time + 2 * m_margin s))
          (real_of_int (measured_height get_size s msg time + 2 * m_margin s))
          (1.5 * real_of_int (m_margin s))
          (clamp01 cr, clamp01 cg, clamp01 cb, clamp01 (ca * al)),
        Show_layout (ctx_tx cx + m_margin s) (ctx_ty cx + m_margin s)
          (Some (markup_of s msg al)) (clamp01 tr, clamp01 tg, clamp01 tb, clamp01 al)]" for cx :: cairo_context
    from drawMessage_drawn_ops[OF nal assms(4,3) bg tx]
    obtain cx sf' where cx: "m_context s = Some cx" and sf': "m_surface s' = Some sf'" and o1: "surf_ops sf' = surf_ops sf @
       [Fill_rounded_rect (ctx_tx cx) (ctx_ty cx)
          (real_of_int (measured_width get_size s msg time + 2 * m_margin s))
          (real_of_int (measured_height get_size s msg time + 2 * m_margin s))
          (1.5 * real_of_int (m_margin s))
          (clamp01 cr, clamp01 cg, clamp01 cb, clamp01 (ca * fst (alpha_progress s msg time))),
        Show_layout (ctx_tx cx + m_margin s) (ctx_ty cx + m_margin s)
          (Some (markup_of s msg (fst (alpha_progress s msg time))))
          (clamp01 tr, clamp01 tg, clamp01 tb, clamp01 (fst (alpha_progress s msg time)))]"
      by blast
    have o: "surf_ops sf' = surf_ops sf @ new cx"
      using o1 by (simp only: new_def al_def)
    have ta: "clamp01 al = al" using pos up by (rule clamp01_id)
    have alphas: "map op_alpha (new cx) = [clamp01 (ca * al), al]"
      by (simp add: new_def op_alpha_def ta)
    have unit: "\<forall>op \<in> set (new cx). 0 \<le> op_alpha op \<and> op_alpha op \<le> 1"
      using pos up clamp01_unit [of "ca * al"] by (simp add: new_def op_alpha_def ta)
    have prod: "0 \<le> ca \<and> ca \<le> 1 \<longrightarrow> map op_alpha (new cx) = [ca * al, al]"
    proof
      assume c: "0 \<le> ca \<and> ca \<le> 1"
      then have "0 \<le> ca * al" using pos by simp
      moreover have "ca * al \<le> 1" using c pos up by (simp add: mult_le_one)
      ultimately have "clamp01 (ca * al) = ca * al" by (rule clamp01_id)
      with alphas show "map op_alpha (new cx) = [ca * al, al]" by simp
    qed
    from sf' o unit False low up alphas prod show ?thesis
      unfolding al_def [symmetric] bg by (intro exI[of _ sf'] exI[of _ "new cx"]) simp
  qed
qed

theorem tint_alpha_in_unit_interval_witness:
  "0 < m_fade_in_time (projr (drawInit (setColorBackground (0.5, 0.5, 0.5, 2) (new_renderer []))))
   \<and> 0 < m_fade_out_time (projr (drawInit (setColorBackground (0.5, 0.5, 0.5, 2) (new_renderer []))))
   \<and> (\<exists>sf h p s' sf'.
        m_surface (projr (drawInit (setColorBackground (0.5, 0.5, 0.5, 2) (new_renderer [])))) = Some sf
        \<and> surf_ops sf = []
        \<and> drawMessage (\<lambda>ly. (100 * 1024, 20 * 1024)) \<lparr>m_time = 0, m_user = ''a'', m_text = ''hi''\<rparr> (1 / 2)
             (projr (drawInit (setColorBackground (0.5, 0.5, 0.5, 2) (new_renderer [])))) = Inr (h, p, s')
        \<and> m_surface s' = Some sf'
        \<and> map op_alpha (surf_ops sf') = [1, 1 / 2])"
proof -
  define s where "s = projr (drawInit (setColorBackground (0.5, 0.5, 0.5, 2) (new_renderer [])))"
  define msg where "msg = \<lparr>m_time = 0, m_user = ''a'', m_text = ''hi''\<rparr>"
  define g :: text_backend where "g = (\<lambda>ly. (100 * 1024, 20 * 1024))"
  have h1: "0 < m_fade_in_time s" and h2: "0 < m_fade_out_time s"
    and bg: "m_color_bg s = (0.5, 0.5, 0.5, 2)"
    by (simp_all add: s_def new_renderer_def setColorBackground_def drawInit_def)
  have ap: "alpha_progress s msg (1 / 2) = (1 / 2, 1 / 2)"
    by (simp add: alpha_progress_def Let_def s_def msg_def new_renderer_def setColorBackground_def drawInit_def)
  obtain sf where sf: "m_surface s = Some sf" "surf_ops sf = []"
    by (simp add: s_def new_renderer_def setColorBackground_def drawInit_def)
  have "\<exists>h s'. drawMessage g msg (1 / 2) s = Inr (h, 1 / 2, s')"
    by (simp add: s_def msg_def g_def new_renderer_def setColorBackground_def drawInit_def drawMessage_def
          alpha_progress_def drawBackground_def set_source_rgba_def paint_def Let_def)
  then obtain h p s' where dm: "drawMessage g msg (1 / 2) s = Inr (h, p, s')"
    by blast
  from tint_alpha_in_unit_interval [OF h1 h2 sf(1) dm]
  obtain sf' where n: "m_surface s' = Some sf'" "map op_alpha (surf_ops sf') = [clamp01 (2 * (1 / 2)), 1 / 2]"
    by (auto simp: ap bg sf(2))
  then have "map op_alpha (surf_ops sf') = [1, 1 / 2]" by (simp add: clamp01_def)
  with h1 h2 sf dm n(1) show ?thesis
    unfolding s_def msg_def g_def by auto
qed

section \<open>The setters\<close>

text \<open>
  Claim C9. \<open>setWidth\<close>, \<open>setHeight\<close> and \<open>setMargin\<close> with a value different from the
  current one release the surface, the context and the layout. The colour and timing
  setters, and a dimension setter with the current value, leave the three objects as they
  are.
\<close>

theorem setters_release:
  "(width \<noteq> m_width s \<longrightarrow>
      m_surface (setWidth width s) = None \<and> m_context (setWidth width s) = None
      \<and> m_layout (setWidth width s) = None)
   \<and> (height \<noteq> m_height s \<longrightarrow>
      m_surface (setHeight height s) = None \<and> m_context (setHeight height s) = None
      \<and> m_layout (setHeight height s) = None)
   \<and> (margin \<noteq> m_margin s \<longrightarrow>
      m_surface (setMargin margin s) = None \<and> m_context (setMargin margin s) = None
      \<and> m_layout (setMargin margin s) = None)
   \<and> (\<forall>f \<in> {setColorBackground bg, setColorUser cu, setColorText ct,
               setFadeInTime t1, setHoldTime t2, setFadeOutTime t3,
               setWidth (m_width s), setHeight (m_height s), setMargin (m_margin s)}.
         m_surface (f s) = m_surface s \<and> m_context (f s) = m_context s \<and> m_layout (f s) = m_layout s)"
  by (simp add: setWidth_def setHeight_def setMargin_def drawRelease_def setColorBackground_def
        setColorUser_def setColorText_def setFadeInTime_def setHoldTime_def setFadeOutTime_def)

theorem setters_release_witness:
  "m_surface (projr (drawInit (new_renderer []))) \<noteq> None
   \<and> m_context (projr (drawInit (new_renderer []))) \<noteq> None
   \<and> m_layout (projr (drawInit (new_renderer []))) \<noteq> None
   \<and> 800 \<noteq> m_width (projr (drawInit (new_renderer [])))
   \<and> m_surface (setWidth 800 (projr (drawInit (new_renderer [])))) = None
   \<and> m_context (setWidth 800 (projr (drawInit (new_renderer [])))) = None
   \<and> m_layout (setWidth 800 (projr (drawInit (new_renderer [])))) = None
   \<and> 600 \<noteq> m_height (projr (drawInit (new_renderer [])))
   \<and> m_surface (setHeight 600 (projr (drawInit (new_renderer [])))) = None
   \<and> 12 \<noteq> m_margin (projr (drawInit (new_renderer [])))
   \<and> m_surface (setMargin 12 (projr (drawInit (new_renderer [])))) = None
   \<and> m_surface (setColorBackground (1, 1, 1, 1) (projr (drawInit (new_renderer []))))
        = m_surface (projr (drawInit (new_renderer [])))
   \<and> m_surface (setFadeInTime 2 (projr (drawInit (new_renderer []))))
        = m_surface (projr (drawInit (new_renderer [])))
   \<and> m_surface (setWidth 640 (projr (drawInit (new_renderer []))))
        = m_surface (projr (drawInit (new_renderer [])))"
  using setters_release [of 800 "projr (drawInit (new_renderer []))" 600 12 "(1, 1, 1, 1)" "(0, 0, 0)" "(0, 0, 0)" 2 15 1]
  by (simp add: new_renderer_def drawInit_def)

section \<open>The copy to the output image\<close>

lemma copy_row_closed:
  "copy_row r in_data out_data x in_ofs out_ofs =
     concat (map (\<lambda>k. pixel_copy (out_data + out_ofs + 4 * (k - x)) (in_data + in_ofs + 4 * (k - x)))
               [x..x2 r - 1])"
proof (induction r in_data out_data x in_ofs out_ofs rule: copy_row.induct)
  case (1 r in_data out_data x in_ofs out_ofs)
  show ?case
  proof (cases "x < x2 r")
    case True
    then have up: "[x..x2 r - 1] = x # [x + 1..x2 r - 1]" by (simp add: upto_rec1)
    have m: "map (\<lambda>k. pixel_copy (out_data + (out_ofs + 4) + 4 * (k - (x + 1))) (in_data + (in_ofs + 4) + 4 * (k - (x + 1))))
                [x + 1..x2 r - 1]
           = map (\<lambda>k. pixel_copy (out_data + out_ofs + 4 * (k - x)) (in_data + in_ofs + 4 * (k - x)))
                [x + 1..x2 r - 1]"
      by (rule map_cong) (simp_all add: algebra_simps)
    show ?thesis
      by (subst copy_row.simps) (simp add: True "1.IH"[OF True] up m pixel_copy_def add.assoc)
  next
    case False
    then show ?thesis by (subst copy_row.simps) simp
  qed
qed

lemma copy_rows_closed:
  "copy_rows r in_stride out_stride y in_data out_data =
     concat (map (\<lambda>j. copy_row r (in_data - (j - y) * in_stride) (out_data + (j - y) * out_stride) (x1 r) 0 0)
               [y..y2 r - 1])"
proof (induction r in_stride out_stride y in_data out_data rule: copy_rows.induct)
  case (1 r in_stride out_stride y in_data out_data)
  show ?case
  proof (cases "y < y2 r")
    case True
    then have up: "[y..y2 r - 1] = y # [y + 1..y2 r - 1]" by (simp add: upto_rec1)
    have m: "map (\<lambda>j. copy_row r (in_data - in_stride - (j - (y + 1)) * in_stride)
                        (out_data + out_stride + (j - (y + 1)) * out_stride) (x1 r) 0 0) [y + 1..y2 r - 1]
           = map (\<lambda>j. copy_row r (in_data - (j - y) * in_stride) (out_data + (j - y) * out_stride) (x1 r) 0 0)
                [y + 1..y2 r - 1]"
      by (rule map_cong) (simp_all add: algebra_simps)
    show ?thesis
      by (subst copy_rows.simps) (simp add: True "1.IH"[OF True] up m)
  next
    case False
    then show ?thesis by (subst copy_rows.simps) simp
  qed
qed

lemma copy_result_closed:
  assumes "0 < h" "m_surface s = Some sf"
  shows "copy_result h s out_stride rRender =
     Inr (concat (map (\<lambda>y. concat (map (\<lambda>x. pixel_copy (y * out_stride + 4 * x)
                                               ((h - y - 1) * (4 * surf_width sf) + 4 * x))
                                     [max (x1 rRender) 0 .. min (x2 rRender) (m_width s) - 1]))
                      [max (y1 rRender) 0 .. min (y2 rRender) h - 1]))"
proof -
  define r where "r = clipRectI rRender \<lparr> x1 = 0, y1 = 0, x2 = m_width s, y2 = h \<rparr>"
  define st where "st = 4 * surf_width sf"
  have r: "x1 r = max (x1 rRender) 0" "y1 r = max (y1 rRender) 0"
      "x2 r = min (x2 rRender) (m_width s)" "y2 r = min (y2 rRender) h"
    by (simp_all add: r_def clipRectI_def)
  have cr: "copy_result h s out_stride rRender =
      Inr (copy_rows r st out_stride (y1 r) ((h - y1 r - 1) * st + x1 r * 4) (y1 r * out_stride + x1 r * 4))"
    using assms by (simp add: copy_result_def getStride_def Let_def r_def st_def)
  have row: "\<And>j. copy_row r ((h - y1 r - 1) * st + x1 r * 4 - (j - y1 r) * st)
                 (y1 r * out_stride + x1 r * 4 + (j - y1 r) * out_stride) (x1 r) 0 0
        = concat (map (\<lambda>x. pixel_copy (j * out_stride + 4 * x) ((h - j - 1) * st + 4 * x)) [x1 r..x2 r - 1])"
  proof -
    fix j
    have "map (\<lambda>k. pixel_copy (y1 r * out_stride + x1 r * 4 + (j - y1 r) * out_stride + 0 + 4 * (k - x1 r))
                      ((h - y1 r - 1) * st + x1 r * 4 - (j - y1 r) * st + 0 + 4 * (k - x1 r))) [x1 r..x2 r - 1]
        = map (\<lambda>x. pixel_copy (j * out_stride + 4 * x) ((h - j - 1) * st + 4 * x)) [x1 r..x2 r - 1]"
      by (rule map_cong) (simp_all add: algebra_simps)
    then show "copy_row r ((h - y1 r - 1) * st + x1 r * 4 - (j - y1 r) * st)
                 (y1 r * out_stride + x1 r * 4 + (j - y1 r) * out_stride) (x1 r) 0 0
        = concat (map (\<lambda>x. pixel_copy (j * out_stride + 4 * x) ((h - j - 1) * st + 4 * x)) [x1 r..x2 r - 1])"
      by (simp only: copy_row_closed)
  qed
  show ?thesis
    unfolding cr copy_rows_closed row by (simp add: r st_def)
qed


text \<open>
  Claim C7. After a render that returned a height \<open>h > 0\<close>, the copy writes, for every row
  \<open>y\<close> and column \<open>x\<close> of the render window clipped with \<open>[0, width) \<times> [0, h)\<close>, in row
  order and column order, the pixel at row \<open>y\<close> and column \<open>x\<close> of the output image from
  the pixel at row \<open>h - y - 1\<close> and the same column of the surface, with channels 0 and 2
  swapped and channels 1 and 3 in place; and it writes nothing else.
\<close>

theorem copy_result_flip_swap:
  assumes "0 < h" "m_surface s = Some sf"
  shows "copy_result h s out_stride rRender =
     Inr (concat (map (\<lambda>y. concat (map (\<lambda>x. pixel_copy (y * out_stride + 4 * x)
                                               ((h - y - 1) * (4 * surf_width sf) + 4 * x))
                                     [max (x1 rRender) 0 .. min (x2 rRender) (m_width s) - 1]))
                      [max (y1 rRender) 0 .. min (y2 rRender) h - 1]))"
  using assms by (rule copy_result_closed)

theorem copy_result_flip_swap_witness:
  "(0::int) < 3
   \<and> (\<exists>sf. m_surface (projr (drawInit (new_renderer []))) = Some sf)
   \<and> copy_result 3 (projr (drawInit (new_renderer []))) 2560 \<lparr> x1 = 0, y1 = 1, x2 = 2, y2 = 100 \<rparr>
     = Inr [Copy_byte 2560 2562, Copy_byte 2561 2561, Copy_byte 2562 2560, Copy_byte 2563 2563,
            Copy_byte 2564 2566, Copy_byte 2565 2565, Copy_byte 2566 2564, Copy_byte 2567 2567,
            Copy_byte 5120 2, Copy_byte 5121 1, Copy_byte 5122 0, Copy_byte 5123 3,
            Copy_byte 5124 6, Copy_byte 5125 5, Copy_byte 5126 4, Copy_byte 5127 7]"
proof -
  obtain sf where sf: "m_surface (projr (drawInit (new_renderer []))) = Some sf" "surf_width sf = 640"
    by (simp add: new_renderer_def drawInit_def)
  have w: "m_width (projr (drawInit (new_renderer []))) = 640"
    by (simp add: new_renderer_def drawInit_def)
  have u: "[0..1] = [0, 1::int]" "[1..2] = [1, 2::int]" by (simp_all add: upto_rec1)
  from copy_result_flip_swap [OF _ sf(1), of 3 2560 "\<lparr> x1 = 0, y1 = 1, x2 = 2, y2 = 100 \<rparr>"] sf
  show ?thesis by (simp add: w u pixel_copy_def)
qed

lemma render_surface:
  "render get_size time s = Inr (h, s1) \<Longrightarrow> h \<noteq> 0 \<Longrightarrow> m_surface s1 \<noteq> None"
  by (auto simp: render_def Let_def split: if_splits sum.splits option.splits prod.splits)

lemma copy_result_disjoint:
  assumes "0 < h \<longrightarrow> m_surface s \<noteq> None"
    and "\<not> (\<exists>x y. x1 r \<le> x \<and> x < x2 r \<and> y1 r \<le> y \<and> y < y2 r
                 \<and> 0 \<le> x \<and> x < m_width s \<and> 0 \<le> y \<and> y < h)"
  shows "copy_result h s out_stride r = Inr []"
proof (cases "0 < h")
  case False
  then show ?thesis by (simp add: copy_result_def)
next
  case True
  with assms(1) obtain sf where sf: "m_surface s = Some sf" by auto
  have "min (x2 r) (m_width s) \<le> max (x1 r) 0 \<or> min (y2 r) h \<le> max (y1 r) 0"
  proof (rule ccontr)
    assume "\<not> ?thesis"
    then have "x1 r \<le> max (x1 r) 0 \<and> max (x1 r) 0 < x2 r \<and> y1 r \<le> max (y1 r) 0 \<and> max (y1 r) 0 < y2 r
        \<and> 0 \<le> max (x1 r) 0 \<and> max (x1 r) 0 < m_width s \<and> 0 \<le> max (y1 r) 0 \<and> max (y1 r) 0 < h"
      by auto
    with assms(2) show False by blast
  qed
  then have "[max (x1 r) 0 .. min (x2 r) (m_width s) - 1] = [] \<or> [max (y1 r) 0 .. min (y2 r) h - 1] = []"
    by auto
  then show ?thesis
    unfolding copy_result_closed [OF True sf] by auto
qed

text \<open>
  Claim C8. When the render window, already clipped with the image bounds, has no pixel in
  common with the painted rectangle \<open>[0, width) \<times> [0, h)\<close>, where \<open>h\<close> is the height that
  \<open>render\<close> returned, the copy to the render target makes no write.
\<close>

theorem copy_result_outside:
  assumes "render get_size time s = Inr (h, s1)"
    and "\<not> (\<exists>x y. x1 r \<le> x \<and> x < x2 r \<and> y1 r \<le> y \<and> y < y2 r
                 \<and> 0 \<le> x \<and> x < m_width s1 \<and> 0 \<le> y \<and> y < h)"
  shows "copy_result h s1 out_stride r = Inr []"
proof -
  have "0 < h \<longrightarrow> m_surface s1 \<noteq> None"
    using render_surface [OF assms(1)] by auto
  from copy_result_disjoint [OF this assms(2)] show ?thesis .
qed

theorem copy_result_outside_witness:
  "\<exists>s1. render (\<lambda>ly. (100 * 1024, 20 * 1024)) (1 / 2)
          (new_renderer [\<lparr>m_time = 0, m_user = ''a'', m_text = ''hi''\<rparr>]) = Inr (25, s1)
     \<and> \<not> (\<exists>x y. x1 \<lparr> x1 = 0, y1 = 100, x2 = 640, y2 = 200 \<rparr> \<le> x
                 \<and> x < x2 \<lparr> x1 = 0, y1 = 100, x2 = 640, y2 = 200 \<rparr>
                 \<and> y1 \<lparr> x1 = 0, y1 = 100, x2 = 640, y2 = 200 \<rparr> \<le> y
                 \<and> y < y2 \<lparr> x1 = 0, y1 = 100, x2 = 640, y2 = 200 \<rparr>
                 \<and> 0 \<le> x \<and> x < m_width s1 \<and> 0 \<le> y \<and> y < (25::int))
     \<and> copy_result 25 s1 2560 \<lparr> x1 = 0, y1 = 100, x2 = 640, y2 = 200 \<rparr> = Inr []"
proof -
  define g :: text_backend where "g = (\<lambda>ly. (100 * 1024, 20 * 1024))"
  define s where "s = new_renderer [\<lparr>m_time = 0, m_user = ''a'', m_text = ''hi''\<rparr>]"
  define r where "r = \<lparr> x1 = 0, y1 = 100, x2 = 640, y2 = 200 \<rparr>"
  obtain s1 where rd: "render g (1 / 2) s = Inr (25, s1)"
    by (simp add: g_def s_def new_renderer_def render_def active_messages_def lower_bound.simps
          upper_bound.simps Let_def drawInit_def drawMessage_def alpha_progress_def drawBackground_def
          set_source_rgba_def paint_def translate_def set_identity_matrix_def PANGO_PIXELS_def
          c_round_def int_of_double_def)
  have out: "\<not> (\<exists>x y. x1 r \<le> x \<and> x < x2 r \<and> y1 r \<le> y \<and> y < y2 r
                 \<and> 0 \<le> x \<and> x < m_width s1 \<and> 0 \<le> y \<and> y < (25::int))"
    by (simp add: r_def)
  from copy_result_outside [OF rd out, of 2560] rd out
  show ?thesis unfolding g_def s_def r_def by (intro exI[of _ s1]) simp
qed

lemma clear_target_writes:
  "x1 r \<le> x2 r \<Longrightarrow> \<exists>ws. clear_target r out_stride y = Inr ws"
proof (induction r out_stride y rule: clear_target.induct)
  case (1 r out_stride y)
  show ?case
  proof (cases "y < y2 r")
    case True
    from "1.prems" have ms: "memset_zero ((y * out_stride) + 4 * x1 r) ((x2 r - x1 r) * 4)
        = Inr (map (\<lambda>i. Set_zero ((y * out_stride) + 4 * x1 r + i)) [0..(x2 r - x1 r) * 4 - 1])"
      by (simp add: memset_zero_def)
    from "1.IH" [OF True ms "1.prems"] obtain rest where rest: "clear_target r out_stride (y + 1) = Inr rest"
      by blast
    have "clear_target r out_stride y
        = Inr (map (\<lambda>i. Set_zero ((y * out_stride) + 4 * x1 r + i)) [0..(x2 r - x1 r) * 4 - 1] @ rest)"
      by (subst clear_target.simps) (simp only: True if_True ms rest sum.case)
    then show ?thesis by blast
  next
    case False
    then show ?thesis by (subst clear_target.simps) simp
  qed
qed

lemma chat_burst_active: "active_messages (new_renderer chat_burst) 8 = chat_burst"
proof -
  have "sorted (map m_time (m_messages (new_renderer chat_burst)))"
    by (simp add: chat_burst_def new_renderer_def)
  from active_is_scan [OF this, of 8] show ?thesis
    by (simp add: chat_burst_def new_renderer_def linear_scan_def)
qed

lemma chat_burst_render:
  "\<exists>s1 sf. render (\<lambda>ly. (100 * 1024, 20 * 1024)) (200 / 25) (new_renderer chat_burst) = Inr (400, s1)
    \<and> m_surface s1 = Some sf \<and> surf_height sf = 360 \<and> surf_width sf = 640 \<and> m_width s1 = 640"
proof -
  define g :: text_backend where "g = (\<lambda>ly. (100 * 1024, 20 * 1024))"
  define s where "s = new_renderer chat_burst"
  have gc: "graphics_consistent s" unfolding s_def by (rule new_renderer_consistent)
  have act: "active_messages s 8 = chat_burst" unfolding s_def by (rule chat_burst_active)
  then have ne: "active_messages s 8 \<noteq> []" by (simp add: chat_burst_def)
  define s0 where "s0 = projr (drawInit s)"
  have di: "drawInit s = Inr s0" by (simp add: s0_def s_def drawInit_def new_renderer_def)
  have f: "m_margin s0 = 10" "m_fade_in_time s0 = 1" "m_hold_time s0 = 15" "m_fade_out_time s0 = 1"
     "m_width s0 = 640" "m_layout s0 \<noteq> None"
     "\<exists>sf. m_surface s0 = Some sf \<and> surf_width sf = 640 \<and> surf_height sf = 360"
    by (simp_all add: s0_def s_def drawInit_def new_renderer_def)
  have ht: "\<And>m. m \<in> set chat_burst \<Longrightarrow> height_term g s0 m 8 = 50"
    using f(6) by (auto simp: chat_burst_def height_term_def drawn_def measured_height_def alpha_progress_def
         Let_def f(1-4) g_def PANGO_PIXELS_def)
  have "(\<Sum>m\<leftarrow>chat_burst. height_term g s0 m 8) = (\<Sum>m\<leftarrow>chat_burst. 50)"
    by (rule arg_cong[where f=sum_list], rule map_cong) (simp_all add: ht)
  also have "\<dots> = 400" by (simp add: chat_burst_def)
  finally have sm: "(\<Sum>m\<leftarrow>chat_burst. height_term g s0 m 8) = 400" .
  from render_active [OF gc ne, of g] di act sm f(5,7)
  have "\<exists>s1 sf. render g 8 s = Inr (400, s1)
    \<and> m_surface s1 = Some sf \<and> surf_height sf = 360 \<and> surf_width sf = 640 \<and> m_width s1 = 640"
    by (auto simp: c_round_def int_of_double_def)
  then show ?thesis unfolding g_def s_def by simp
qed

text \<open>
  Claim C10 fails on the code. The copy bounds the rows it reads by the height \<open>h\<close> that
  \<open>render\<close> returned, not by the height of the surface, and \<open>render\<close> does not bound \<open>h\<close>.
  For the burst of eight messages, each measured 20 pixels high, \<open>render\<close> at time 8 with
  the constructor's configuration returns 400 for a surface of 360 rows; the copy for the
  whole \<open>640 \<times> 360\<close> render window then reads, for row 0 of the output, row 399 of the
  surface, beyond the 921600 bytes of its data.
\<close>

theorem copy_reads_beyond_surface:
  "\<exists>ws s1 sf.
     effectRender (\<lambda>ly. (100 * 1024, 20 * 1024)) 200 25
        \<lparr> x1 = 0, y1 = 0, x2 = 640, y2 = 360 \<rparr> \<lparr> x1 = 0, y1 = 0, x2 = 640, y2 = 360 \<rparr> 2560
        (new_renderer chat_burst) = Inr (ws, s1)
     \<and> render (\<lambda>ly. (100 * 1024, 20 * 1024)) (200 / 25) (new_renderer chat_burst) = Inr (400, s1)
     \<and> m_surface s1 = Some sf \<and> surf_height sf = 360 \<and> surface_data_size sf = 921600
     \<and> Copy_byte 0 ((400 - 0 - 1) * 2560 + 2) \<in> set ws"
proof -
  define g :: text_backend where "g = (\<lambda>ly. (100 * 1024, 20 * 1024))"
  define s where "s = new_renderer chat_burst"
  define r where "r = \<lparr> x1 = 0, y1 = 0, x2 = 640, y2 = 360 \<rparr>"
  from chat_burst_render
  obtain s1 sf where rd: "render g (200 / 25) s = Inr (400, s1)"
      and sf: "m_surface s1 = Some sf" "surf_height sf = 360" "surf_width sf = 640" and w: "m_width s1 = 640"
    unfolding g_def s_def by blast
  have cl: "clipRectI r r = r" by (simp add: r_def clipRectI_def)
  have cp: "copy_result 400 s1 2560 r =
     Inr (concat (map (\<lambda>y. concat (map (\<lambda>x. pixel_copy (y * 2560 + 4 * x) ((400 - y - 1) * (4 * surf_width sf) + 4 * x))
                                     [max (x1 r) 0 .. min (x2 r) (m_width s1) - 1]))
                      [max (y1 r) 0 .. min (y2 r) 400 - 1]))"
    by (rule copy_result_closed [OF _ sf(1)]) simp
  have mem: "Copy_byte 0 ((400 - 0 - 1) * 2560 + 2) \<in>
     set (concat (map (\<lambda>y. concat (map (\<lambda>x. pixel_copy (y * 2560 + 4 * x) ((400 - y - 1) * (4 * surf_width sf) + 4 * x))
                                     [max (x1 r) 0 .. min (x2 r) (m_width s1) - 1]))
                      [max (y1 r) 0 .. min (y2 r) 400 - 1]))"
    by (simp add: r_def w sf pixel_copy_def)
  obtain cleared where ct: "clear_target r 2560 (y1 r) = Inr cleared"
    using clear_target_writes [of r 2560 "y1 r"] by (auto simp: r_def)
  have er: "effectRender g 200 25 r r 2560 s
      = Inr (cleared @
             concat (map (\<lambda>y. concat (map (\<lambda>x. pixel_copy (y * 2560 + 4 * x) ((400 - y - 1) * (4 * surf_width sf) + 4 * x))
                                     [max (x1 r) 0 .. min (x2 r) (m_width s1) - 1]))
                      [max (y1 r) 0 .. min (y2 r) 400 - 1]), s1)"
    using rd cp ct by (simp add: effectRender_def Let_def cl)
  have "surface_data_size sf = 921600" by (simp add: surface_data_size_def sf)
  with er rd sf mem show ?thesis unfolding g_def s_def r_def by auto
qed


section \<open>Loading\<close>

lemma loadFromFile_sorted: "sorted (map m_time (loadFromFile strtod load_file filename))"
  by (simp add: loadFromFile_def Let_def)

lemma loadFromFile_no_root:
  "child (snd (load_file filename)) ''popcorn'' = None \<Longrightarrow> loadFromFile strtod load_file filename = []"
  by (simp add: loadFromFile_def Let_def children_def)

lemma loadFromFile_empty_document:
  "snd (load_file filename) = [] \<Longrightarrow> loadFromFile strtod load_file filename = []"
  by (simp add: loadFromFile_def Let_def children_def child_def)

lemma doReloadMessages_sorted:
  "sorted (map m_time (m_messages (doReloadMessages strtod load_file data_file s)))"
  by (simp add: doReloadMessages_def setMessages_def loadFromFile_sorted)

text \<open>
  Claim C6 holds for a missing file, whose document is empty, and for a document without
  the \<open>popcorn\<close> root, and the result is always sorted (the three lemmas above). It fails for
  a file that cannot be parsed but of which a part was parsed: for a log cut off after its
  first entry pugixml reports \<open>status_end_element_mismatch\<close> and keeps the entry in the
  document, and \<open>loadFromFile\<close>, which does not look at the status, returns that entry.
\<close>

theorem loadFromFile_keeps_partial_document:
  "fst ((\<lambda>filename. (status_end_element_mismatch,
           [Xml_node ''popcorn'' []
              [Xml_node ''chattimeline'' [(''in'', ''1''), (''name'', ''a''), (''message'', ''hi'')] []]]))
        ''chat.xml'') \<noteq> status_ok
   \<and> loadFromFile (\<lambda>v. if v = ''1'' then 1 else 0)
        (\<lambda>filename. (status_end_element_mismatch,
           [Xml_node ''popcorn'' []
              [Xml_node ''chattimeline'' [(''in'', ''1''), (''name'', ''a''), (''message'', ''hi'')] []]]))
        ''chat.xml''
      = [\<lparr>m_time = 1, m_user = ''a'', m_text = ''hi''\<rparr>]"
  by (simp add: loadFromFile_def Let_def child_def children_def attribute_def as_double_def attr_value_def)


end
